theory Spec2Isabelle
  imports Main
begin

section \<open>Exceptions, transport and entities\<close>

text \<open>
  The exception classes that \<^verbatim>\<open>session.py\<close> and \<^verbatim>\<open>utils.py\<close> raise or catch.
  \<open>IndexError\<close> and \<open>KeyError\<close> are the ones Python raises itself on \<^verbatim>\<open>ep_colls[0]\<close>
  and on a dictionary lookup.
\<close>

datatype error =
    TypeError
  | AttributeError
  | ValueError
  | IndexError
  | KeyError
  | NotLoggedInError
  | RequestFailedError

text \<open>A \<^verbatim>\<open>requests\<close> response: the two fields the code reads (\<open>resp_text\<close> is
  \<^verbatim>\<open>response.text\<close>).\<close>

record response =
  status_code :: int
  resp_text :: string

text \<open>
  A request handed to \<^verbatim>\<open>requests.Session\<close>: \<^verbatim>\<open>get(url)\<close> or \<^verbatim>\<open>post(url, data)\<close>.
  The form data is kept as an association list in the order of the dictionary literal.
\<close>

datatype request =
    GET string
  | POST string "(string \<times> string) list"

type_synonym exchange = "request \<times> response"

text \<open>
  \<^verbatim>\<open>BangumiSubjectCollection\<close>: \<open>subject_id\<close> is \<^verbatim>\<open>subject.id_\<close>, \<open>sub_c_status\<close> is
  \<^verbatim>\<open>c_status\<close> (the field \<^verbatim>\<open>_c_status\<close>), \<open>ep_collections\<close> holds the addresses of
  the episode collections in stored order.
\<close>

record sub_coll =
  subject_id :: string
  sub_c_status :: "int option"
  rating :: "int option"
  tags :: "string list"
  comment :: string
  n_watched_eps :: "int option"
  ep_collections :: "nat list"

text \<open>
  \<^verbatim>\<open>BangumiEpisodeCollection\<close>: \<open>episode_id\<close> is \<^verbatim>\<open>episode.id_\<close>, \<open>ep_c_status\<close> is
  \<^verbatim>\<open>c_status\<close>, \<open>sub_collection\<close> is the address of the containing subject collection
  or \<open>None\<close>.
\<close>

record ep_coll =
  episode_id :: string
  ep_c_status :: "string option"
  sub_collection :: "nat option"

text \<open>
  An argument of \<^verbatim>\<open>set_collection\<close> and \<^verbatim>\<open>remove_collection\<close>: a reference to a subject
  collection, to an episode collection, or any other object (the \<^verbatim>\<open>isinstance\<close> tests
  tell them apart).
\<close>

datatype collection =
    SubjectCollection nat
  | EpisodeCollection nat
  | OtherObject

text \<open>
  The session object together with the store of the collection objects it works on.
  \<open>trace\<close> is every request sent so far with its response, oldest first; the objects are
  shared and mutated in place, so they live in two stores indexed by address.
  A state with \<open>logged_in\<close> stands for a session whose constructor has logged in and
  has cached \<open>gh\<close> and \<open>user_id\<close>; the constructor itself is not modelled. There is one
  session, so the attribute \<^verbatim>\<open>session\<close> that the methods set on the objects they hand
  out has no counterpart.
\<close>

record state =
  base_url :: string
  gh :: string
  user_id :: string
  logged_in :: bool
  closed :: bool
  trace :: "exchange list"
  subs :: "nat \<Rightarrow> sub_coll"
  eps :: "nat \<Rightarrow> ep_coll"
  next_ep :: nat

text \<open>
  What the code takes from outside \<^verbatim>\<open>src/\<close>: the HTTP client, the HTML extraction built
  on BeautifulSoup and \<^verbatim>\<open>re\<close>, and the declarations of \<^verbatim>\<open>collection.py\<close>.
  \<^item> \<open>transport\<close>: the response of the remote service to a request, given everything
    exchanged before;
  \<^item> \<open>text_as\<close>: \<^verbatim>\<open>response.text\<close> after \<^verbatim>\<open>response.encoding\<close> has been set;
  \<^item> \<open>get_encoding_from_html\<close>, \<open>get_user_id_from_html\<close>, \<open>get_n_pages\<close>: the functions
    of \<^verbatim>\<open>utils.py\<close> of these names, which may raise;
  \<^item> \<open>n_watched_eps_from_html\<close>: \<^verbatim>\<open>get_n_watched_eps_from_soup(BeautifulSoup(html))\<close>;
  \<^item> \<open>sub_id_from_ep_html\<close>: the subject id read off an episode page in
    \<^verbatim>\<open>_get_sub_id_for_ep\<close>;
  \<^item> \<open>ep_colls_for_sub_from_html\<close>: the factory
    \<^verbatim>\<open>BangumiEpisodeCollection.ep_colls_for_sub_from_html\<close>;
  \<^item> \<open>ep_coll_eq\<close>: Python's \<^verbatim>\<open>==\<close> on two episode collections;
  \<^item> \<open>VALID_SUB_C_STATUS\<close>, \<open>VALID_EP_C_STATUS\<close>: the tuples \<^verbatim>\<open>_VALID_C_STATUS\<close> of the
    two collection classes.
\<close>

record env =
  transport :: "exchange list \<Rightarrow> request \<Rightarrow> response"
  text_as :: "string \<Rightarrow> response \<Rightarrow> string"
  get_encoding_from_html :: "string \<Rightarrow> string"
  get_user_id_from_html :: "string \<Rightarrow> error + string"
  n_watched_eps_from_html :: "string \<Rightarrow> error + int"
  get_n_pages :: "string \<Rightarrow> error + int"
  sub_id_from_ep_html :: "string \<Rightarrow> error + string"
  ep_colls_for_sub_from_html :: "string \<Rightarrow> string \<Rightarrow> error + ep_coll list"
  ep_coll_eq :: "state \<Rightarrow> nat \<Rightarrow> nat \<Rightarrow> bool"
  VALID_SUB_C_STATUS :: "int list"
  VALID_EP_C_STATUS :: "string list"

section \<open>Methods as state transformers that may raise\<close>

type_synonym 'a action = "state \<Rightarrow> (error + 'a) \<times> state"

definition ok :: "'a \<Rightarrow> 'a action" where
  "ok x s = (Inr x, s)"

definition raise :: "error \<Rightarrow> 'a action" where
  "raise e s = (Inl e, s)"

definition and_then :: "'a action \<Rightarrow> ('a \<Rightarrow> 'b action) \<Rightarrow> 'b action" where
  "and_then m f s = (case m s of (Inl e, s') \<Rightarrow> (Inl e, s') | (Inr x, s') \<Rightarrow> f x s')"

definition lift :: "error + 'a \<Rightarrow> 'a action" where
  "lift r s = (r, s)"

definition gets :: "(state \<Rightarrow> 'a) \<Rightarrow> 'a action" where
  "gets f s = (Inr (f s), s)"

definition modify :: "(state \<Rightarrow> state) \<Rightarrow> unit action" where
  "modify g s = (Inr (), g s)"

text \<open>
  An action fails without effect in a state when it raises there and leaves the whole
  state as it was: no field of the session, no object of the store and no entry of
  the trace differs, so no request was sent.
\<close>

definition fails_untouched :: "'a action \<Rightarrow> state \<Rightarrow> bool" where
  "fails_untouched m s = (isl (fst (m s)) \<and> snd (m s) = s)"

section \<open>Python's \<^verbatim>\<open>str\<close> and \<^verbatim>\<open>join\<close>\<close>

definition digit :: "nat \<Rightarrow> char" where
  "digit d = ''0123456789'' ! d"

fun str_nat :: "nat \<Rightarrow> string" where
  "str_nat n = (if n < 10 then [digit n] else str_nat (n div 10) @ [digit (n mod 10)])"

declare str_nat.simps [simp del]

definition str_int :: "int \<Rightarrow> string" where
  "str_int i = (if i < 0 then CHR ''-'' # str_nat (nat (- i)) else str_nat (nat i))"

fun join :: "string \<Rightarrow> string list \<Rightarrow> string" where
  "join sep [] = []"
| "join sep [x] = x"
| "join sep (x # y # ys) = x @ sep @ join sep (y # ys)"

section \<open>\<^verbatim>\<open>utils.py\<close>\<close>

text \<open>
  The loop of \<^verbatim>\<open>get_ep_colls_up_to_this\<close>: append each entry, stop after the first one
  that compares equal to the target.
\<close>

fun colls_up_to :: "(nat \<Rightarrow> bool) \<Rightarrow> nat list \<Rightarrow> nat list" where
  "colls_up_to is_this [] = []"
| "colls_up_to is_this (ep_c # rest) =
     (if is_this ep_c then [ep_c] else ep_c # colls_up_to is_this rest)"

definition get_ep_colls_up_to_this :: "env \<Rightarrow> nat \<Rightarrow> nat list action" where
  "get_ep_colls_up_to_this env ep_coll s =
     (case sub_collection (eps s ep_coll) of
        None \<Rightarrow> raise AttributeError s
      | Some sub_coll \<Rightarrow>
          ok (colls_up_to (\<lambda>ep_c. ep_coll_eq env s ep_c ep_coll)
                (ep_collections (subs s sub_coll))) s)"

text \<open>
  \<^verbatim>\<open>check_response\<close>: a status other than 200 is a failure; otherwise the user id is
  extracted, a \<open>TypeError\<close> of the extraction is caught and is a failure, any other
  exception propagates.
\<close>

definition check_response :: "env \<Rightarrow> response \<Rightarrow> error + bool" where
  "check_response env response =
     (if status_code response \<noteq> 200 then Inr False
      else (case get_user_id_from_html env (resp_text response) of
              Inl e \<Rightarrow> if e = TypeError then Inr False else Inl e
            | Inr uid \<Rightarrow> Inr True))"

section \<open>\<^verbatim>\<open>session.py\<close>: guarded requests\<close>

text \<open>
  The decorator \<^verbatim>\<open>require_login\<close>; it guards \<^verbatim>\<open>_get\<close>, \<^verbatim>\<open>_post\<close> and \<^verbatim>\<open>logout\<close>.
\<close>

definition require_login :: "'a action \<Rightarrow> 'a action" where
  "require_login method s =
     (if \<not> logged_in s then raise NotLoggedInError s else method s)"

text \<open>\<^verbatim>\<open>self._session.get\<close> and \<^verbatim>\<open>self._session.post\<close>: the request goes out.\<close>

definition send :: "env \<Rightarrow> request \<Rightarrow> response action" where
  "send env req s =
     (let r = transport env (trace s) req
      in (Inr r, s\<lparr>trace := trace s @ [(req, r)]\<rparr>))"

definition get' :: "env \<Rightarrow> string \<Rightarrow> response action" where
  "get' env url = require_login (send env (GET url))"

definition post' :: "env \<Rightarrow> string \<Rightarrow> (string \<times> string) list \<Rightarrow> response action" where
  "post' env url data = require_login (send env (POST url data))"

definition logout :: "env \<Rightarrow> unit action" where
  "logout env =
     require_login
       (and_then (modify (\<lambda>s. s\<lparr>logged_in := False\<rparr>)) (\<lambda>u.
        and_then (gets (\<lambda>s. base_url s @ ''/logout/'' @ gh s)) (\<lambda>url.
        and_then (send env (GET url)) (\<lambda>r.
        modify (\<lambda>s. s\<lparr>closed := True\<rparr>)))))"

text \<open>
  \<^verbatim>\<open>response.encoding = get_encoding_from_html(response.text)\<close> followed by
  \<^verbatim>\<open>response.text\<close>.
\<close>

definition recoded :: "env \<Rightarrow> response \<Rightarrow> string" where
  "recoded env response = text_as env (get_encoding_from_html env (resp_text response)) response"

definition get_html_for_ep' :: "env \<Rightarrow> string \<Rightarrow> string action" where
  "get_html_for_ep' env ep_id =
     and_then (gets (\<lambda>s. base_url s @ ''/ep/'' @ ep_id)) (\<lambda>ep_url.
     and_then (get' env ep_url) (\<lambda>response.
     ok (recoded env response)))"

definition get_sub_id_for_ep' :: "env \<Rightarrow> string \<Rightarrow> string action" where
  "get_sub_id_for_ep' env ep_id =
     and_then (get_html_for_ep' env ep_id) (\<lambda>html.
     lift (sub_id_from_ep_html env html))"

definition get_html_for_subject_main' :: "env \<Rightarrow> string \<Rightarrow> string action" where
  "get_html_for_subject_main' env sub_id =
     and_then (gets (\<lambda>s. base_url s @ ''/subject/'' @ sub_id)) (\<lambda>sub_url.
     and_then (get' env sub_url) (\<lambda>response.
     ok (recoded env response)))"

definition get_html_for_subject_eps' :: "env \<Rightarrow> string \<Rightarrow> string action" where
  "get_html_for_subject_eps' env sub_id =
     and_then (gets (\<lambda>s. base_url s @ ''/subject/'' @ sub_id @ ''/ep'')) (\<lambda>sub_url.
     and_then (get' env sub_url) (\<lambda>response.
     ok (recoded env response)))"

section \<open>\<^verbatim>\<open>session.py\<close>: writing collections\<close>

text \<open>The dictionary \<^verbatim>\<open>c_status_map\<close> of \<^verbatim>\<open>get_dummy_collections\<close>.\<close>

definition c_status_map :: "(int \<times> string) list" where
  "c_status_map =
     [(1, ''wish''), (2, ''collect''), (3, ''do''), (4, ''on_hold''), (5, ''dropped'')]"

text \<open>
  The unicode literals of the form data, as UTF-8 bytes: the two characters of the
  ``save'' button and the two of the ``update'' button.
\<close>

definition save_label :: string where
  "save_label = [CHR 0xE4, CHR 0xBF, CHR 0x9D, CHR 0xE5, CHR 0xAD, CHR 0x98]"

definition update_label :: string where
  "update_label = [CHR 0xE6, CHR 0x9B, CHR 0xB4, CHR 0xE6, CHR 0x96, CHR 0xB0]"

text \<open>The acknowledgement of a batch write, \<^verbatim>\<open>{"status":"ok"}\<close>.\<close>

definition ack :: string where
  "ack = ''{'' @ [CHR 0x22] @ ''status'' @ [CHR 0x22] @ '':'' @ [CHR 0x22] @ ''ok''
           @ [CHR 0x22] @ ''}''"

text \<open>
  \<^verbatim>\<open>str(sub_coll.rating) if sub_coll.rating else ''\<close>: \<open>None\<close> and \<open>0\<close> are falsy.
\<close>

definition rating_str :: "int option \<Rightarrow> string" where
  "rating_str r = (case r of None \<Rightarrow> [] | Some n \<Rightarrow> if n = 0 then [] else str_int n)"

text \<open>
  \<^verbatim>\<open>set_sub_collection\<close>. \<^verbatim>\<open>not sub_coll.c_status\<close> holds for \<open>None\<close> and for \<open>0\<close>.
\<close>

definition set_sub_collection :: "env \<Rightarrow> collection \<Rightarrow> bool action" where
  "set_sub_collection env sub_coll s =
     (case sub_coll of
        SubjectCollection a \<Rightarrow>
          (case sub_c_status (subs s a) of
             None \<Rightarrow> raise AttributeError s
           | Some c_status \<Rightarrow>
               if c_status = 0 then raise AttributeError s
               else if c_status \<notin> set (VALID_SUB_C_STATUS env) then raise ValueError s
               else
                 (let data = [(''referer'', ''subject''),
                              (''interest'', str_int c_status),
                              (''rating'', rating_str (rating (subs s a))),
                              (''tags'', join '' '' (tags (subs s a))),
                              (''comment'', comment (subs s a)),
                              (''update'', save_label)];
                      set_coll_url = base_url s @ ''/subject/'' @ subject_id (subs s a)
                                       @ ''/interest/update?gh='' @ gh s
                  in and_then (post' env set_coll_url data)
                       (\<lambda>response. lift (check_response env response)) s))
      | EpisodeCollection a \<Rightarrow> raise TypeError s
      | OtherObject \<Rightarrow> raise TypeError s)"

text \<open>
  Modelled from the spec: the setter of the property \<^verbatim>\<open>c_status\<close> of
  \<^verbatim>\<open>BangumiEpisodeCollection\<close> (in \<^verbatim>\<open>collection.py\<close>, not among the sources): it sets the
  episode to the given concrete status.
\<close>

definition set_ep_c_status :: "string \<Rightarrow> nat \<Rightarrow> state \<Rightarrow> state" where
  "set_ep_c_status v a s = s\<lparr>eps := (eps s)(a := (eps s a)\<lparr>ep_c_status := Some v\<rparr>)\<rparr>"

definition set_n_watched :: "nat \<Rightarrow> int \<Rightarrow> state \<Rightarrow> state" where
  "set_n_watched p n s = s\<lparr>subs := (subs s)(p := (subs s p)\<lparr>n_watched_eps := Some n\<rparr>)\<rparr>"

text \<open>
  \<^verbatim>\<open>_set_watched_eps_in_sub\<close>. \<^verbatim>\<open>ep_colls[0]\<close> raises \<open>IndexError\<close> on the empty list;
  \<^verbatim>\<open>is not\<close> compares the parents by identity, here by address; on the success branch
  \<^verbatim>\<open>sub_coll.subject\<close> raises \<open>AttributeError\<close> when the common parent is \<open>None\<close>.
\<close>

definition set_watched_eps_in_sub' :: "env \<Rightarrow> nat list \<Rightarrow> bool action" where
  "set_watched_eps_in_sub' env ep_colls s =
     (case ep_colls of
        [] \<Rightarrow> raise IndexError s
      | first # others \<Rightarrow>
          (let sub_coll = sub_collection (eps s first)
           in if list_ex (\<lambda>ep_c. sub_collection (eps s ep_c) \<noteq> sub_coll) ep_colls
              then raise ValueError s
              else
                (let ep_ids = map (\<lambda>ep_c. episode_id (eps s ep_c)) ep_colls;
                     base_ep_id = last ep_ids;
                     ep_ids_str = join '','' ep_ids;
                     data = [(''ep_id'', ep_ids_str)];
                     set_url = base_url s @ ''/subject/ep/'' @ base_ep_id
                                 @ ''/status/watched?gh='' @ gh s @ ''&ajax=1''
                 in and_then (post' env set_url data) (\<lambda>response.
                      if status_code response = 200 \<and> resp_text response = ack then
                        (case sub_coll of
                           None \<Rightarrow> raise AttributeError
                         | Some p \<Rightarrow>
                             and_then (gets (\<lambda>s1. subject_id (subs s1 p))) (\<lambda>sub_id.
                             and_then (get_html_for_subject_main' env sub_id) (\<lambda>html.
                             and_then (lift (n_watched_eps_from_html env html)) (\<lambda>n.
                             and_then (modify (set_n_watched p n)) (\<lambda>u.
                             and_then (modify (fold (set_ep_c_status ''watched'') ep_colls))
                               (\<lambda>u. ok True))))))
                      else ok False) s)))"

text \<open>
  \<^verbatim>\<open>set_ep_collection\<close>. \<^verbatim>\<open>not ep_coll.c_status\<close> holds for \<open>None\<close> and for the empty
  string; \<^verbatim>\<open>if ep_coll.sub_collection\<close> holds for every subject collection object.
\<close>

definition set_ep_collection :: "env \<Rightarrow> collection \<Rightarrow> bool action" where
  "set_ep_collection env ep_coll s =
     (case ep_coll of
        EpisodeCollection a \<Rightarrow>
          (case ep_c_status (eps s a) of
             None \<Rightarrow> raise AttributeError s
           | Some c_status \<Rightarrow>
               if c_status = [] then raise AttributeError s
               else if c_status \<notin> set (VALID_EP_C_STATUS env) then raise ValueError s
               else if c_status = ''watched_up_to'' then
                 (case sub_collection (eps s a) of
                    None \<Rightarrow> raise AttributeError s
                  | Some p \<Rightarrow>
                      and_then (get_ep_colls_up_to_this env a)
                        (set_watched_eps_in_sub' env) s)
               else
                 (let set_url = base_url s @ ''/subject/ep/'' @ episode_id (eps s a)
                                  @ ''/status/'' @ c_status @ ''?gh='' @ gh s
                  in and_then (get' env set_url) (\<lambda>response.
                     and_then
                       (case sub_collection (eps s a) of
                          None \<Rightarrow> ok ()
                        | Some p \<Rightarrow>
                            and_then (lift (n_watched_eps_from_html env (resp_text response)))
                              (\<lambda>n. modify (set_n_watched p n)))
                       (\<lambda>u. lift (check_response env response))) s))
      | SubjectCollection a \<Rightarrow> raise TypeError s
      | OtherObject \<Rightarrow> raise TypeError s)"

definition set_collection :: "env \<Rightarrow> collection \<Rightarrow> bool action" where
  "set_collection env collection =
     (case collection of
        SubjectCollection a \<Rightarrow> set_sub_collection env collection
      | EpisodeCollection a \<Rightarrow> set_ep_collection env collection
      | OtherObject \<Rightarrow> raise TypeError)"

definition remove_sub_collection' :: "env \<Rightarrow> string \<Rightarrow> bool action" where
  "remove_sub_collection' env sub_id =
     and_then (gets (\<lambda>s. base_url s @ ''/subject/'' @ sub_id @ ''/remove?gh='' @ gh s))
       (\<lambda>rm_url.
     and_then (get' env rm_url) (\<lambda>response. lift (check_response env response)))"

definition remove_ep_collection' :: "env \<Rightarrow> string \<Rightarrow> bool action" where
  "remove_ep_collection' env ep_id =
     and_then (gets (\<lambda>s. base_url s @ ''/subject/ep/'' @ ep_id @ ''/status/remove?gh='' @ gh s))
       (\<lambda>rm_url.
     and_then (get' env rm_url) (\<lambda>response. lift (check_response env response)))"

definition clear_c_status :: "collection \<Rightarrow> state \<Rightarrow> state" where
  "clear_c_status collection s =
     (case collection of
        SubjectCollection a \<Rightarrow> s\<lparr>subs := (subs s)(a := (subs s a)\<lparr>sub_c_status := None\<rparr>)\<rparr>
      | EpisodeCollection a \<Rightarrow> s\<lparr>eps := (eps s)(a := (eps s a)\<lparr>ep_c_status := None\<rparr>)\<rparr>
      | OtherObject \<Rightarrow> s)"

definition remove_collection :: "env \<Rightarrow> collection \<Rightarrow> bool action" where
  "remove_collection env collection =
     and_then
       (case collection of
          SubjectCollection a \<Rightarrow>
            and_then (gets (\<lambda>s. subject_id (subs s a))) (remove_sub_collection' env)
        | EpisodeCollection a \<Rightarrow>
            and_then (gets (\<lambda>s. episode_id (eps s a))) (remove_ep_collection' env)
        | OtherObject \<Rightarrow> raise TypeError)
       (\<lambda>result.
     and_then (modify (clear_c_status collection)) (\<lambda>u.
     ok result))"

definition set_n_watched_eps' :: "env \<Rightarrow> string \<Rightarrow> int \<Rightarrow> bool action" where
  "set_n_watched_eps' env sub_id n =
     and_then (gets (\<lambda>s. base_url s @ ''/subject/set/watched/'' @ sub_id)) (\<lambda>set_url.
     and_then (post' env set_url
                 [(''referer'', ''subject''), (''submit'', update_label),
                  (''watchedeps'', str_int n)])
       (\<lambda>response. lift (check_response env response)))"

text \<open>
  The end of \<^verbatim>\<open>set_n_watched_eps\<close>: the episode collections built by the factory are new
  objects, placed at fresh addresses; each gets the subject collection as its
  \<open>sub_collection\<close>, and their addresses become its \<open>ep_collections\<close>.
\<close>

definition install_ep_colls :: "nat \<Rightarrow> ep_coll list \<Rightarrow> state \<Rightarrow> state" where
  "install_ep_colls p new s =
     (let addrs = [next_ep s ..< next_ep s + length new]
      in s\<lparr>subs := (subs s)(p := (subs s p)\<lparr>ep_collections := addrs\<rparr>),
           eps := fold (\<lambda>(a, c) h. h(a := c\<lparr>sub_collection := Some p\<rparr>)) (zip addrs new) (eps s),
           next_ep := next_ep s + length new\<rparr>)"

definition set_n_watched_eps :: "env \<Rightarrow> nat \<Rightarrow> bool action" where
  "set_n_watched_eps env sub_coll s =
     (if sub_c_status (subs s sub_coll) = Some 1 then raise ValueError s
      else
        (case n_watched_eps (subs s sub_coll) of
           None \<Rightarrow> raise AttributeError s
         | Some n \<Rightarrow>
             and_then (set_n_watched_eps' env (subject_id (subs s sub_coll)) n)
               (\<lambda>result.
                  if result then
                    and_then (gets (\<lambda>s1. subject_id (subs s1 sub_coll))) (\<lambda>sub_id.
                    and_then (get_html_for_subject_eps' env sub_id) (\<lambda>html.
                    and_then (lift (ep_colls_for_sub_from_html env sub_id html)) (\<lambda>new.
                    and_then (modify (install_ep_colls sub_coll new)) (\<lambda>u.
                    ok True))))
                  else ok False) s))"

section \<open>\<^verbatim>\<open>session.py\<close>: the paginated listing\<close>

text \<open>
  \<open>from_soup\<close> stands for the extraction of the list items of a page and
  \<^verbatim>\<open>BangumiDummySubjectCollection.from_soup_for_li\<close> on each of them.
\<close>

definition page_url :: "string \<Rightarrow> int \<Rightarrow> string" where
  "page_url url page = url @ ''?page='' @ str_int page"

definition get_dummy_colls_on_page' ::
  "env \<Rightarrow> (string \<Rightarrow> int \<Rightarrow> error + 'd list) \<Rightarrow> string \<Rightarrow> int \<Rightarrow> int \<Rightarrow> 'd list action" where
  "get_dummy_colls_on_page' env from_soup url page c_status =
     and_then (get' env (page_url url page)) (\<lambda>response.
       if status_code response \<noteq> 200 then raise RequestFailedError
       else lift (from_soup (recoded env response) c_status))"

text \<open>The loop over the pages, \<^verbatim>\<open>dummy_colls += ...\<close>.\<close>

fun dummy_colls_of_pages ::
  "env \<Rightarrow> (string \<Rightarrow> int \<Rightarrow> error + 'd list) \<Rightarrow> string \<Rightarrow> int \<Rightarrow> int list \<Rightarrow> 'd list
     \<Rightarrow> 'd list action" where
  "dummy_colls_of_pages env from_soup url c_status [] dummy_colls = ok dummy_colls"
| "dummy_colls_of_pages env from_soup url c_status (p # ps) dummy_colls =
     and_then (get_dummy_colls_on_page' env from_soup url p c_status) (\<lambda>colls.
       dummy_colls_of_pages env from_soup url c_status ps (dummy_colls @ colls))"

definition get_dummy_collections ::
  "env \<Rightarrow> (string \<Rightarrow> int \<Rightarrow> error + 'd list) \<Rightarrow> string \<Rightarrow> int \<Rightarrow> string option
     \<Rightarrow> 'd list action" where
  "get_dummy_collections env from_soup sub_type c_status uid s =
     (if sub_type \<notin> set [''anime'', ''book'', ''game'', ''real''] then raise ValueError s
      else if c_status \<notin> set [1..5] then raise ValueError s
      else
        (let uid' = (case uid of None \<Rightarrow> user_id s
                     | Some u \<Rightarrow> if u = [] then user_id s else u)
         in case map_of c_status_map c_status of
              None \<Rightarrow> raise KeyError s
            | Some text_c_status \<Rightarrow>
                (let url = base_url s @ ''/'' @ sub_type @ ''/list/'' @ uid' @ ''/''
                             @ text_c_status
                 in and_then (get' env url) (\<lambda>response.
                    and_then (lift (get_n_pages env (resp_text response))) (\<lambda>n_pages.
                    dummy_colls_of_pages env from_soup url c_status [1..n_pages] [])) s)))"

section \<open>\<^verbatim>\<open>session.py\<close>: reading\<close>

text \<open>
  The reading methods fetch one or two pages and hand them to a factory of
  \<^verbatim>\<open>element.py\<close> or \<^verbatim>\<open>collection.py\<close>; the factory is the argument \<open>from_html\<close>, its
  result is returned as it is.
\<close>

definition get_subject ::
  "env \<Rightarrow> (string \<Rightarrow> string \<Rightarrow> error + 'a) \<Rightarrow> string \<Rightarrow> 'a action" where
  "get_subject env from_html sub_id =
     and_then (get_html_for_subject_main' env sub_id) (\<lambda>sub_html.
     and_then (get_html_for_subject_eps' env sub_id) (\<lambda>ep_html.
     lift (from_html sub_html ep_html)))"

definition get_episode ::
  "env \<Rightarrow> (string \<Rightarrow> string \<Rightarrow> error + 'a) \<Rightarrow> string \<Rightarrow> 'a action" where
  "get_episode env from_html ep_id =
     and_then (get_sub_id_for_ep' env ep_id) (\<lambda>sub_id.
     and_then (get_html_for_subject_eps' env sub_id) (\<lambda>html.
     lift (from_html ep_id html)))"

definition get_episodes_for_sub ::
  "env \<Rightarrow> (string \<Rightarrow> error + 'a) \<Rightarrow> string \<Rightarrow> 'a action" where
  "get_episodes_for_sub env eps_from_html sub_id =
     and_then (get_html_for_subject_eps' env sub_id) (\<lambda>html.
     lift (eps_from_html html))"

definition get_sub_collection ::
  "env \<Rightarrow> (string \<Rightarrow> string \<Rightarrow> error + 'a) \<Rightarrow> string \<Rightarrow> 'a action" where
  "get_sub_collection env from_html sub_id =
     and_then (get_html_for_subject_main' env sub_id) (\<lambda>sub_html.
     and_then (get_html_for_subject_eps' env sub_id) (\<lambda>ep_html.
     lift (from_html sub_html ep_html)))"

definition get_sub_collection_with_subject ::
  "env \<Rightarrow> ('b \<Rightarrow> string \<Rightarrow> string \<Rightarrow> error + 'a) \<Rightarrow> ('b \<Rightarrow> string) \<Rightarrow> 'b \<Rightarrow> 'a action" where
  "get_sub_collection_with_subject env from_html_with_subject id_of subject =
     and_then (get_html_for_subject_main' env (id_of subject)) (\<lambda>sub_html.
     and_then (get_html_for_subject_eps' env (id_of subject)) (\<lambda>ep_html.
     lift (from_html_with_subject subject sub_html ep_html)))"

definition get_ep_collection ::
  "env \<Rightarrow> (string \<Rightarrow> string \<Rightarrow> error + 'a) \<Rightarrow> string \<Rightarrow> 'a action" where
  "get_ep_collection env from_html ep_id =
     and_then (get_sub_id_for_ep' env ep_id) (\<lambda>sub_id.
     and_then (get_html_for_subject_eps' env sub_id) (\<lambda>html.
     lift (from_html ep_id html)))"

definition get_ep_collection_with_episode ::
  "env \<Rightarrow> ('b \<Rightarrow> string \<Rightarrow> error + 'a) \<Rightarrow> ('b \<Rightarrow> string) \<Rightarrow> 'b \<Rightarrow> 'a action" where
  "get_ep_collection_with_episode env from_html_with_ep id_of episode =
     and_then (get_sub_id_for_ep' env (id_of episode)) (\<lambda>sub_id.
     and_then (get_html_for_subject_eps' env sub_id) (\<lambda>html.
     lift (from_html_with_ep episode html)))"

section \<open>Where a watched count comes from\<close>

text \<open>
  The count \<open>n\<close> is parsed from the response \<open>r\<close>: it is what the extraction gives on the
  text of \<open>r\<close>, as received or after the encoding was set.
\<close>

definition parsed_from :: "env \<Rightarrow> response \<Rightarrow> int \<Rightarrow> bool" where
  "parsed_from env r n =
     (n_watched_eps_from_html env (resp_text r) = Inr n
      \<or> n_watched_eps_from_html env (recoded env r) = Inr n)"

text \<open>
  Between the states \<open>s\<close> and \<open>s'\<close> the watched count of the subject collection \<open>p\<close> is
  either what it was, or a number parsed from a response received in between (an entry
  of the trace of \<open>s'\<close> beyond the trace of \<open>s\<close>).
\<close>

definition count_from_server :: "env \<Rightarrow> state \<Rightarrow> state \<Rightarrow> nat \<Rightarrow> bool" where
  "count_from_server env s s' p =
     (n_watched_eps (subs s' p) = n_watched_eps (subs s p)
      \<or> (case n_watched_eps (subs s' p) of
            None \<Rightarrow> False
          | Some n \<Rightarrow> list_ex (\<lambda>x. parsed_from env (snd x) n)
                        (drop (length (trace s)) (trace s'))))"

section \<open>A concrete session\<close>

text \<open>
  A small world on which the operations are run: the subject collection at address 0
  is subject 100 with the episodes \<open>e1\<close>, \<open>e2\<close>, \<open>e3\<close>, \<open>e4\<close> at the addresses 0 to 3;
  the episode collection at address 4 names that subject collection as its parent but
  is not in its list; every other episode collection stands alone. The subject
  collections at the addresses 1 and 2 have the statuses 0 and 1, the others the
  status 9, and none of them has a watched count.
\<close>

definition demo_subs :: "nat \<Rightarrow> sub_coll" where
  "demo_subs a =
     \<lparr>subject_id = (if a = 0 then ''100'' else ''200''),
      sub_c_status = (if a = 0 then Some 3 else if a = 1 then Some 0
                      else if a = 2 then Some 1 else Some 9),
      rating = Some 8, tags = [''tv'', ''2015''], comment = ''fine'',
      n_watched_eps = (if a = 0 then Some 1 else None),
      ep_collections = (if a = 0 then [0, 1, 2, 3] else [])\<rparr>"

definition demo_eps :: "nat \<Rightarrow> ep_coll" where
  "demo_eps a =
     \<lparr>episode_id = (if a = 0 then ''e1'' else if a = 1 then ''e2'' else if a = 2 then ''e3''
                     else if a = 3 then ''e4'' else ''e9''),
      ep_c_status = (if a = 0 then Some ''queue'' else if a = 1 then None
                     else if a = 3 then Some ''wished'' else Some ''watched_up_to''),
      sub_collection = (if a \<le> 4 then Some 0 else None)\<rparr>"

definition demo_state :: state where
  "demo_state =
     \<lparr>base_url = ''http://bgm.tv'', gh = ''g'', user_id = ''42'', logged_in = True,
      closed = False, trace = [], subs = demo_subs, eps = demo_eps, next_ep = 6\<rparr>"

text \<open>An extraction that reads a page consisting of one decimal digit.\<close>

definition demo_number :: "string \<Rightarrow> error + int" where
  "demo_number html =
     (case html of
        [] \<Rightarrow> Inl TypeError
      | c # cs \<Rightarrow>
          if cs = [] \<and> of_char c \<in> {48 .. 57 :: nat} then Inr (int (of_char c) - 48)
          else Inl TypeError)"

text \<open>
  The surroundings of the concrete session: the remote service is the argument, \<open>==\<close>
  on episode collections is identity. The extraction of the user id follows
  \<^verbatim>\<open>get_user_id_from_soup\<close>: on the empty page, which has no element of class
  \<^verbatim>\<open>idBadgerNeue\<close>, \<^verbatim>\<open>soup.find\<close> gives \<open>None\<close> and the following \<^verbatim>\<open>.find\<close> raises
  \<open>AttributeError\<close>; on the page \<open>guest\<close>, a badge without the avatar link, the
  subscript \<^verbatim>\<open>['href']\<close> on \<open>None\<close> raises \<open>TypeError\<close>; every other page shows the
  logged-in user 42.
\<close>

definition demo_env :: "(exchange list \<Rightarrow> request \<Rightarrow> response) \<Rightarrow> env" where
  "demo_env remote =
     \<lparr>transport = remote,
      text_as = (\<lambda>encoding response. resp_text response),
      get_encoding_from_html = (\<lambda>html. ''utf-8''),
      get_user_id_from_html =
        (\<lambda>html. if html = [] then Inl AttributeError
                else if html = ''guest'' then Inl TypeError else Inr ''42''),
      n_watched_eps_from_html = demo_number,
      get_n_pages = demo_number,
      sub_id_from_ep_html = (\<lambda>html. Inr ''100''),
      ep_colls_for_sub_from_html = (\<lambda>sub_id html. Inr []),
      ep_coll_eq = (\<lambda>s a b. a = b),
      VALID_SUB_C_STATUS = [1, 2, 3, 4, 5],
      VALID_EP_C_STATUS = [''watched'', ''queue'', ''drop'', ''watched_up_to'']\<rparr>"

text \<open>
  Three remote services: one that acknowledges every batch write and reports 7 watched
  episodes on every page, one that answers every request with status 500 and the same
  page, and one that acknowledges nothing.
\<close>

definition acking :: "exchange list \<Rightarrow> request \<Rightarrow> response" where
  "acking tr req =
     (case req of
        GET url \<Rightarrow> \<lparr>status_code = 200, resp_text = ''7''\<rparr>
      | POST url data \<Rightarrow> \<lparr>status_code = 200, resp_text = ack\<rparr>)"

definition failing :: "exchange list \<Rightarrow> request \<Rightarrow> response" where
  "failing tr req = \<lparr>status_code = 500, resp_text = ''7''\<rparr>"

definition refusing :: "exchange list \<Rightarrow> request \<Rightarrow> response" where
  "refusing tr req = \<lparr>status_code = 200, resp_text = ''no''\<rparr>"

text \<open>
  Two more: one that acknowledges every batch write but whose pages show no watched
  count, and one whose every answer is the empty page with status 200, as a service
  that no longer knows the user would give.
\<close>

definition acking_blank :: "exchange list \<Rightarrow> request \<Rightarrow> response" where
  "acking_blank tr req =
     (case req of
        GET url \<Rightarrow> \<lparr>status_code = 200, resp_text = ''no''\<rparr>
      | POST url data \<Rightarrow> \<lparr>status_code = 200, resp_text = ack\<rparr>)"

definition logged_out :: "exchange list \<Rightarrow> request \<Rightarrow> response" where
  "logged_out tr req = \<lparr>status_code = 200, resp_text = []\<rparr>"

text \<open>
  A listing of three pages for the user 42: the listing itself announces three pages,
  the pages hold two, one and two entries (one letter each).
\<close>

definition listing :: "exchange list \<Rightarrow> request \<Rightarrow> response" where
  "listing tr req =
     (if req = GET ''http://bgm.tv/anime/list/42/do'' then \<lparr>status_code = 200, resp_text = ''3''\<rparr>
      else if req = GET ''http://bgm.tv/anime/list/42/do?page=1''
        then \<lparr>status_code = 200, resp_text = ''ab''\<rparr>
      else if req = GET ''http://bgm.tv/anime/list/42/do?page=2''
        then \<lparr>status_code = 200, resp_text = ''c''\<rparr>
      else if req = GET ''http://bgm.tv/anime/list/42/do?page=3''
        then \<lparr>status_code = 200, resp_text = ''de''\<rparr>
      else \<lparr>status_code = 404, resp_text = []\<rparr>)"

text \<open>The same listing with a second page that answers with status 500.\<close>

definition broken_listing :: "exchange list \<Rightarrow> request \<Rightarrow> response" where
  "broken_listing tr req =
     (if req = GET ''http://bgm.tv/anime/list/42/do?page=2''
        then \<lparr>status_code = 500, resp_text = ''c''\<rparr>
      else listing tr req)"

text \<open>
  The same listing where the first fetch, the one that announces the three pages,
  answers with status 500 and the same body.
\<close>

definition listing_first_500 :: "exchange list \<Rightarrow> request \<Rightarrow> response" where
  "listing_first_500 tr req =
     (if req = GET ''http://bgm.tv/anime/list/42/do''
        then \<lparr>status_code = 500, resp_text = ''3''\<rparr>
      else listing tr req)"

text \<open>An extraction of list entries: every letter of the page is one entry.\<close>

definition letters :: "string \<Rightarrow> int \<Rightarrow> error + string list" where
  "letters html c_status = Inr (map (\<lambda>c. [c]) html)"

section \<open>Basic facts\<close>

lemmas action_defs = ok_def raise_def and_then_def lift_def gets_def modify_def
  require_login_def send_def get'_def post'_def

lemma get'_refused: "\<not> logged_in s \<Longrightarrow> get' env url s = (Inl NotLoggedInError, s)"
  by (simp add: action_defs)

lemma post'_refused: "\<not> logged_in s \<Longrightarrow> post' env url data s = (Inl NotLoggedInError, s)"
  by (simp add: action_defs)

lemma and_then_fails: "fails_untouched m s \<Longrightarrow> fails_untouched (and_then m f) s"
  by (cases "m s") (auto simp: fails_untouched_def and_then_def split: sum.splits)

section \<open>Validation comes before any request\<close>

text \<open>
  C5, as the code has it. Both \<^verbatim>\<open>set_sub_collection\<close> and \<^verbatim>\<open>set_ep_collection\<close> test
  \<^verbatim>\<open>not c_status\<close> first, so a falsy status (unset, or the number 0 for a subject
  collection, or the empty string for an episode collection) raises \<open>AttributeError\<close>;
  any other status outside the legal enumeration of its kind raises \<open>ValueError\<close>. In
  both cases the state that comes back is the state that went in: nothing was sent and
  nothing was changed.
\<close>

theorem invalid_c_status_rejected:
  "(sub_c_status (subs s a) = None \<or> sub_c_status (subs s a) = Some 0
      \<longrightarrow> set_sub_collection env (SubjectCollection a) s = (Inl AttributeError, s))
   \<and> (\<forall>c. sub_c_status (subs s a) = Some c \<and> c \<noteq> 0 \<and> c \<notin> set (VALID_SUB_C_STATUS env)
      \<longrightarrow> set_sub_collection env (SubjectCollection a) s = (Inl ValueError, s))
   \<and> (ep_c_status (eps s b) = None \<or> ep_c_status (eps s b) = Some []
      \<longrightarrow> set_ep_collection env (EpisodeCollection b) s = (Inl AttributeError, s))
   \<and> (\<forall>c. ep_c_status (eps s b) = Some c \<and> c \<noteq> [] \<and> c \<notin> set (VALID_EP_C_STATUS env)
      \<longrightarrow> set_ep_collection env (EpisodeCollection b) s = (Inl ValueError, s))"
  by (auto simp: set_sub_collection_def set_ep_collection_def raise_def)

text \<open>
  The four cases on the concrete session: status 0 and status 9 on subject
  collections, an unset status and the status \<open>wished\<close> on episode collections.
\<close>

theorem invalid_c_status_rejected_witness:
  "sub_c_status (subs demo_state 1) = Some 0
   \<and> set_sub_collection (demo_env acking) (SubjectCollection 1) demo_state
       = (Inl AttributeError, demo_state)
   \<and> sub_c_status (subs demo_state 3) = Some 9
   \<and> set_sub_collection (demo_env acking) (SubjectCollection 3) demo_state
       = (Inl ValueError, demo_state)
   \<and> ep_c_status (eps demo_state 1) = None
   \<and> set_ep_collection (demo_env acking) (EpisodeCollection 1) demo_state
       = (Inl AttributeError, demo_state)
   \<and> ep_c_status (eps demo_state 3) = Some ''wished''
   \<and> set_ep_collection (demo_env acking) (EpisodeCollection 3) demo_state
       = (Inl ValueError, demo_state)"
proof -
  have a: "sub_c_status (subs demo_state 1) = Some 0"
    by (simp add: demo_state_def demo_subs_def)
  have b: "sub_c_status (subs demo_state 3) = Some 9 \<and> (9::int) \<noteq> 0
           \<and> 9 \<notin> set (VALID_SUB_C_STATUS (demo_env acking))"
    by (simp add: demo_state_def demo_subs_def demo_env_def)
  have c: "ep_c_status (eps demo_state 1) = None"
    by (simp add: demo_state_def demo_eps_def)
  have d: "ep_c_status (eps demo_state 3) = Some ''wished'' \<and> ''wished'' \<noteq> []
           \<and> ''wished'' \<notin> set (VALID_EP_C_STATUS (demo_env acking))"
    by (simp add: demo_state_def demo_eps_def demo_env_def)
  from a b c d invalid_c_status_rejected [of demo_state 1 "demo_env acking" 1]
    invalid_c_status_rejected [of demo_state 3 "demo_env acking" 3]
  show ?thesis by blast
qed

text \<open>
  C5 as the claim words it fails: the status 0 of a subject collection lies outside
  the legal enumeration 1 to 5, and the submission raises \<open>AttributeError\<close>, not
  \<open>ValueError\<close>.
\<close>

theorem zero_c_status_counterexample:
  "sub_c_status (subs demo_state 1) = Some 0
   \<and> 0 \<notin> set (VALID_SUB_C_STATUS (demo_env acking))
   \<and> set_sub_collection (demo_env acking) (SubjectCollection 1) demo_state
       = (Inl AttributeError, demo_state)
   \<and> fst (set_sub_collection (demo_env acking) (SubjectCollection 1) demo_state)
       \<noteq> Inl ValueError"
  by (simp add: set_sub_collection_def demo_state_def demo_subs_def demo_env_def raise_def)

text \<open>
  C6. An episode collection whose status is the directive \<open>watched_up_to\<close> (a legal
  status of episode collections) and whose \<open>sub_collection\<close> is absent: submitting it,
  directly or through \<^verbatim>\<open>set_collection\<close>, raises \<open>AttributeError\<close> and returns the state
  unchanged, so no request was sent.
\<close>

theorem watched_up_to_needs_parent:
  assumes "ep_c_status (eps s a) = Some ''watched_up_to''"
    and "''watched_up_to'' \<in> set (VALID_EP_C_STATUS env)"
    and "sub_collection (eps s a) = None"
  shows "set_ep_collection env (EpisodeCollection a) s = (Inl AttributeError, s)
         \<and> set_collection env (EpisodeCollection a) s = (Inl AttributeError, s)"
  using assms by (simp add: set_collection_def set_ep_collection_def raise_def)

theorem watched_up_to_needs_parent_witness:
  "ep_c_status (eps demo_state 5) = Some ''watched_up_to''
   \<and> sub_collection (eps demo_state 5) = None
   \<and> trace demo_state = []
   \<and> set_ep_collection (demo_env acking) (EpisodeCollection 5) demo_state
        = (Inl AttributeError, demo_state)
   \<and> set_collection (demo_env acking) (EpisodeCollection 5) demo_state
        = (Inl AttributeError, demo_state)"
proof -
  have a: "ep_c_status (eps demo_state 5) = Some ''watched_up_to''"
    by (simp add: demo_state_def demo_eps_def)
  have b: "''watched_up_to'' \<in> set (VALID_EP_C_STATUS (demo_env acking))"
    by (simp add: demo_env_def)
  have c: "sub_collection (eps demo_state 5) = None"
    by (simp add: demo_state_def demo_eps_def)
  have d: "trace demo_state = []"
    by (simp add: demo_state_def)
  from a c d watched_up_to_needs_parent [OF a b c] show ?thesis by simp
qed

text \<open>
  C10. The two rejections of \<^verbatim>\<open>set_n_watched_eps\<close>, in the order of the code: with
  status 1 it raises \<open>ValueError\<close>; with no watched count it raises \<open>AttributeError\<close>
  (where the first rule does not already apply). A subject collection with no watched
  count is rejected in every case. Each time the state comes back unchanged: nothing
  was sent.
\<close>

theorem set_n_watched_eps_rejected:
  "(sub_c_status (subs s a) = Some 1
      \<longrightarrow> set_n_watched_eps env a s = (Inl ValueError, s))
   \<and> (sub_c_status (subs s a) \<noteq> Some 1 \<and> n_watched_eps (subs s a) = None
      \<longrightarrow> set_n_watched_eps env a s = (Inl AttributeError, s))
   \<and> (n_watched_eps (subs s a) = None
      \<longrightarrow> fails_untouched (set_n_watched_eps env a) s)"
  by (simp add: set_n_watched_eps_def raise_def fails_untouched_def)

text \<open>
  On the concrete session: the subject collection 2 has status 1 and no count, the
  subject collection 3 has status 9 and no count.
\<close>

theorem set_n_watched_eps_rejected_witness:
  "sub_c_status (subs demo_state 2) = Some 1
   \<and> set_n_watched_eps (demo_env acking) 2 demo_state = (Inl ValueError, demo_state)
   \<and> sub_c_status (subs demo_state 3) \<noteq> Some 1
   \<and> n_watched_eps (subs demo_state 3) = None
   \<and> set_n_watched_eps (demo_env acking) 3 demo_state = (Inl AttributeError, demo_state)
   \<and> n_watched_eps (subs demo_state 2) = None
   \<and> fails_untouched (set_n_watched_eps (demo_env acking) 2) demo_state"
proof -
  have a: "sub_c_status (subs demo_state 2) = Some 1 \<and> n_watched_eps (subs demo_state 2) = None"
    by (simp add: demo_state_def demo_subs_def)
  have b: "sub_c_status (subs demo_state 3) \<noteq> Some 1
           \<and> n_watched_eps (subs demo_state 3) = None"
    by (simp add: demo_state_def demo_subs_def)
  from a b set_n_watched_eps_rejected [of demo_state 2 "demo_env acking"]
    set_n_watched_eps_rejected [of demo_state 3 "demo_env acking"]
  show ?thesis by blast
qed

section \<open>The login guard\<close>

lemma html_main_fails:
  "\<not> logged_in s \<Longrightarrow> fails_untouched (get_html_for_subject_main' env i) s"
  by (simp add: get_html_for_subject_main'_def fails_untouched_def action_defs)

lemma html_eps_fails:
  "\<not> logged_in s \<Longrightarrow> fails_untouched (get_html_for_subject_eps' env i) s"
  by (simp add: get_html_for_subject_eps'_def fails_untouched_def action_defs)

lemma html_ep_fails: "\<not> logged_in s \<Longrightarrow> fails_untouched (get_html_for_ep' env i) s"
  by (simp add: get_html_for_ep'_def fails_untouched_def action_defs)

lemma sub_id_fails: "\<not> logged_in s \<Longrightarrow> fails_untouched (get_sub_id_for_ep' env i) s"
  by (simp add: get_sub_id_for_ep'_def and_then_fails html_ep_fails)

lemma set_sub_fails: "\<not> logged_in s \<Longrightarrow> fails_untouched (set_sub_collection env c) s"
  by (simp add: set_sub_collection_def fails_untouched_def action_defs Let_def
      split: collection.splits option.splits)

lemma set_watched_fails:
  "\<not> logged_in s \<Longrightarrow> fails_untouched (set_watched_eps_in_sub' env cs) s"
  by (simp add: set_watched_eps_in_sub'_def fails_untouched_def action_defs Let_def
      split: list.splits)

lemma set_ep_fails: "\<not> logged_in s \<Longrightarrow> fails_untouched (set_ep_collection env c) s"
  using set_watched_fails [of s env]
  by (simp add: set_ep_collection_def get_ep_colls_up_to_this_def fails_untouched_def
      action_defs Let_def split: collection.splits option.splits)

lemma set_coll_fails: "\<not> logged_in s \<Longrightarrow> fails_untouched (set_collection env c) s"
  using set_ep_fails [of s env c] set_sub_fails [of s env c]
  by (cases c) (simp_all add: set_collection_def fails_untouched_def raise_def)

lemma remove_fails: "\<not> logged_in s \<Longrightarrow> fails_untouched (remove_collection env c) s"
  by (simp add: remove_collection_def remove_sub_collection'_def remove_ep_collection'_def
      fails_untouched_def action_defs split: collection.splits)

lemma set_n_fails: "\<not> logged_in s \<Longrightarrow> fails_untouched (set_n_watched_eps env a) s"
  by (simp add: set_n_watched_eps_def set_n_watched_eps'_def
      fails_untouched_def action_defs split: option.splits)

lemma dummy_fails:
  "\<not> logged_in s \<Longrightarrow> fails_untouched (get_dummy_collections env f t c u) s"
  by (simp add: get_dummy_collections_def fails_untouched_def action_defs Let_def
      split: option.splits)

text \<open>
  C7. In a state that is not logged in, the three guarded methods \<^verbatim>\<open>_get\<close>, \<^verbatim>\<open>_post\<close>
  and \<^verbatim>\<open>logout\<close>, through which every request but the login itself goes out, raise
  \<open>NotLoggedInError\<close> and leave the state as it was, trace included. Every public method
  of the session then fails without effect as well, so the state stays not logged in.
  And \<^verbatim>\<open>logout\<close> on a logged-in session leads to a state that is not logged in.
\<close>

theorem not_logged_in_refused:
  assumes "\<not> logged_in s"
  shows "get' env url s = (Inl NotLoggedInError, s)
    \<and> post' env url data s = (Inl NotLoggedInError, s)
    \<and> logout env s = (Inl NotLoggedInError, s)
    \<and> fails_untouched (set_collection env c) s
    \<and> fails_untouched (set_sub_collection env c) s
    \<and> fails_untouched (set_ep_collection env c) s
    \<and> fails_untouched (remove_collection env c) s
    \<and> fails_untouched (set_n_watched_eps env a) s
    \<and> fails_untouched (get_dummy_collections env from_soup sub_type c_status uid) s
    \<and> fails_untouched (get_subject env f1 i) s
    \<and> fails_untouched (get_episode env f2 i) s
    \<and> fails_untouched (get_episodes_for_sub env f3 i) s
    \<and> fails_untouched (get_sub_collection env f4 i) s
    \<and> fails_untouched (get_sub_collection_with_subject env f5 id5 x5) s
    \<and> fails_untouched (get_ep_collection env f6 i) s
    \<and> fails_untouched (get_ep_collection_with_episode env f7 id7 x7) s
    \<and> (\<forall>s0. logged_in s0 \<longrightarrow> \<not> logged_in (snd (logout env s0)))"
proof -
  have "logout env s = (Inl NotLoggedInError, s)"
    using assms by (simp add: logout_def require_login_def raise_def)
  moreover have "fails_untouched (get_subject env f1 i) s"
    unfolding get_subject_def using assms by (intro and_then_fails html_main_fails)
  moreover have "fails_untouched (get_episode env f2 i) s"
    unfolding get_episode_def using assms by (intro and_then_fails sub_id_fails)
  moreover have "fails_untouched (get_episodes_for_sub env f3 i) s"
    unfolding get_episodes_for_sub_def using assms by (intro and_then_fails html_eps_fails)
  moreover have "fails_untouched (get_sub_collection env f4 i) s"
    unfolding get_sub_collection_def using assms by (intro and_then_fails html_main_fails)
  moreover have "fails_untouched (get_sub_collection_with_subject env f5 id5 x5) s"
    unfolding get_sub_collection_with_subject_def using assms
    by (intro and_then_fails html_main_fails)
  moreover have "fails_untouched (get_ep_collection env f6 i) s"
    unfolding get_ep_collection_def using assms by (intro and_then_fails sub_id_fails)
  moreover have "fails_untouched (get_ep_collection_with_episode env f7 id7 x7) s"
    unfolding get_ep_collection_with_episode_def using assms
    by (intro and_then_fails sub_id_fails)
  moreover have "\<forall>s0. logged_in s0 \<longrightarrow> \<not> logged_in (snd (logout env s0))"
    by (simp add: logout_def action_defs Let_def)
  ultimately show ?thesis
    using assms
    by (simp add: get'_refused post'_refused set_coll_fails set_sub_fails set_ep_fails
        remove_fails set_n_fails dummy_fails)
qed

text \<open>
  On the concrete session after its logout: the logout request is the one entry of the
  trace, and a further \<^verbatim>\<open>_get\<close>, a second \<^verbatim>\<open>logout\<close> and the removal of a collection
  are refused without a request.
\<close>

theorem not_logged_in_refused_witness:
  "logged_in demo_state
   \<and> \<not> logged_in (snd (logout (demo_env acking) demo_state))
   \<and> map fst (trace (snd (logout (demo_env acking) demo_state))) = [GET ''http://bgm.tv/logout/g'']
   \<and> get' (demo_env acking) ''http://bgm.tv/subject/100''
        (snd (logout (demo_env acking) demo_state))
      = (Inl NotLoggedInError, snd (logout (demo_env acking) demo_state))
   \<and> logout (demo_env acking) (snd (logout (demo_env acking) demo_state))
      = (Inl NotLoggedInError, snd (logout (demo_env acking) demo_state))
   \<and> fails_untouched (remove_collection (demo_env acking) (SubjectCollection 0))
        (snd (logout (demo_env acking) demo_state))"
proof -
  have a: "logged_in demo_state"
    by (simp add: demo_state_def)
  have b: "\<not> logged_in (snd (logout (demo_env acking) demo_state))"
    by (simp add: logout_def action_defs demo_state_def Let_def)
  have c: "map fst (trace (snd (logout (demo_env acking) demo_state)))
             = [GET ''http://bgm.tv/logout/g'']"
    by (simp add: logout_def action_defs demo_state_def Let_def)
  note r = not_logged_in_refused [OF b, of "demo_env acking" "''http://bgm.tv/subject/100''"
      _ "SubjectCollection 0"]
  from a b c r [THEN conjunct1] r [THEN conjunct2, THEN conjunct2, THEN conjunct1]
    r [THEN conjunct2, THEN conjunct2, THEN conjunct2, THEN conjunct2, THEN conjunct2,
       THEN conjunct2, THEN conjunct1]
  show ?thesis by simp
qed

section \<open>Removing a collection\<close>

text \<open>
  Where the check of the response returns. On a logged-in session, \<^verbatim>\<open>remove_collection\<close>
  on a subject collection or an episode collection sends the removal request; whatever
  boolean \<open>b\<close> \<^verbatim>\<open>check_response\<close> gives, \<open>b\<close> is returned, the local status of the
  collection is unset, and nothing else changes but the trace, which gains this one
  request.
\<close>

theorem remove_collection_clears_status:
  assumes "logged_in s"
  shows
   "(\<forall>url r b. url = base_url s @ ''/subject/'' @ subject_id (subs s a) @ ''/remove?gh='' @ gh s
        \<and> r = transport env (trace s) (GET url) \<and> check_response env r = Inr b
      \<longrightarrow> remove_collection env (SubjectCollection a) s
          = (Inr b, s\<lparr>trace := trace s @ [(GET url, r)],
                       subs := (subs s)(a := (subs s a)\<lparr>sub_c_status := None\<rparr>)\<rparr>))
    \<and> (\<forall>url r b. url = base_url s @ ''/subject/ep/'' @ episode_id (eps s e)
                      @ ''/status/remove?gh='' @ gh s
        \<and> r = transport env (trace s) (GET url) \<and> check_response env r = Inr b
      \<longrightarrow> remove_collection env (EpisodeCollection e) s
          = (Inr b, s\<lparr>trace := trace s @ [(GET url, r)],
                       eps := (eps s)(e := (eps s e)\<lparr>ep_c_status := None\<rparr>)\<rparr>))"
  using assms
  by (simp add: remove_collection_def remove_sub_collection'_def remove_ep_collection'_def
      clear_c_status_def action_defs Let_def)

text \<open>
  On the concrete session: the removal of the subject collection against the service
  that answers 500 returns \<open>False\<close>, the removal of the third episode collection against
  the acknowledging service returns \<open>True\<close>; the status is unset in both.
\<close>

theorem remove_collection_clears_status_witness:
  "logged_in demo_state
   \<and> remove_collection (demo_env failing) (SubjectCollection 0) demo_state
       = (Inr False,
          demo_state\<lparr>trace := [(GET ''http://bgm.tv/subject/100/remove?gh=g'',
                                  \<lparr>status_code = 500, resp_text = ''7''\<rparr>)],
                      subs := (subs demo_state)
                                (0 := (subs demo_state 0)\<lparr>sub_c_status := None\<rparr>)\<rparr>)
   \<and> remove_collection (demo_env acking) (EpisodeCollection 2) demo_state
       = (Inr True,
          demo_state\<lparr>trace := [(GET ''http://bgm.tv/subject/ep/e3/status/remove?gh=g'',
                                  \<lparr>status_code = 200, resp_text = ''7''\<rparr>)],
                      eps := (eps demo_state)
                               (2 := (eps demo_state 2)\<lparr>ep_c_status := None\<rparr>)\<rparr>)"
proof -
  have a: "logged_in demo_state"
    by (simp add: demo_state_def)
  have t: "trace demo_state = []"
    by (simp add: demo_state_def)
  have b: "remove_collection (demo_env failing) (SubjectCollection 0) demo_state
       = (Inr False,
          demo_state\<lparr>trace := trace demo_state
                                  @ [(GET ''http://bgm.tv/subject/100/remove?gh=g'',
                                      \<lparr>status_code = 500, resp_text = ''7''\<rparr>)],
                      subs := (subs demo_state)
                                (0 := (subs demo_state 0)\<lparr>sub_c_status := None\<rparr>)\<rparr>)"
    by (rule remove_collection_clears_status [OF a, THEN conjunct1, rule_format])
      (simp add: demo_state_def demo_subs_def demo_env_def failing_def check_response_def)
  have c: "remove_collection (demo_env acking) (EpisodeCollection 2) demo_state
       = (Inr True,
          demo_state\<lparr>trace := trace demo_state
                                  @ [(GET ''http://bgm.tv/subject/ep/e3/status/remove?gh=g'',
                                      \<lparr>status_code = 200, resp_text = ''7''\<rparr>)],
                      eps := (eps demo_state)
                               (2 := (eps demo_state 2)\<lparr>ep_c_status := None\<rparr>)\<rparr>)"
    by (rule remove_collection_clears_status [OF a, THEN conjunct2, rule_format])
      (simp add: demo_state_def demo_eps_def demo_env_def acking_def check_response_def)
  from a b c show ?thesis by (simp add: t)
qed

text \<open>
  C8, on the code. The removal request of the subject collection 0 is answered with
  status 200 and a page that no longer shows the user. \<^verbatim>\<open>check_response\<close> is written to
  report this as \<open>False\<close>, but it catches \<open>TypeError\<close> only, and the extraction raises
  \<open>AttributeError\<close> on such a page. The exception leaves \<^verbatim>\<open>remove_collection\<close> before
  the line that clears the status: the request has been sent, no boolean is returned,
  and the local status is still 3.
\<close>

theorem remove_keeps_status_when_check_raises:
  "logged_in demo_state
   \<and> sub_c_status (subs demo_state 0) = Some 3
   \<and> remove_collection (demo_env logged_out) (SubjectCollection 0) demo_state
       = (Inl AttributeError,
          demo_state\<lparr>trace := [(GET ''http://bgm.tv/subject/100/remove?gh=g'',
                                  \<lparr>status_code = 200, resp_text = []\<rparr>)]\<rparr>)
   \<and> sub_c_status
        (subs (snd (remove_collection (demo_env logged_out) (SubjectCollection 0) demo_state))
           0)
       = Some 3"
  by (simp add: remove_collection_def remove_sub_collection'_def check_response_def
      action_defs Let_def demo_state_def demo_env_def demo_subs_def logged_out_def)

section \<open>The watched-up-to batch\<close>

lemma colls_up_to_found:
  "i < length xs \<Longrightarrow> P (xs ! i) \<Longrightarrow> \<forall>j<i. \<not> P (xs ! j) \<Longrightarrow> colls_up_to P xs = take (Suc i) xs"
proof (induction xs arbitrary: i)
  case Nil
  then show ?case by simp
next
  case (Cons x xs)
  show ?case
  proof (cases i)
    case 0
    with Cons.prems show ?thesis by simp
  next
    case (Suc k)
    with Cons.prems have "\<not> P x" by auto
    moreover have "colls_up_to P xs = take (Suc k) xs"
      using Cons.prems Suc by (intro Cons.IH) auto
    ultimately show ?thesis using Suc by simp
  qed
qed

lemma colls_up_to_not_found: "\<forall>x\<in>set xs. \<not> P x \<Longrightarrow> colls_up_to P xs = xs"
  by (induction xs) auto

lemma list_ex_same_parent:
  "\<forall>c\<in>set cs. sub_collection (eps s c) = Some p \<Longrightarrow> cs = x # xs
   \<Longrightarrow> \<not> list_ex (\<lambda>ep_c. sub_collection (eps s ep_c) \<noteq> sub_collection (eps s x)) cs"
  by (auto simp: list_ex_iff)

lemma set_watched_refused:
  assumes "logged_in s" and "cs \<noteq> []" and "\<forall>c\<in>set cs. sub_collection (eps s c) = Some p"
    and "req = POST (base_url s @ ''/subject/ep/'' @ last (map (\<lambda>c. episode_id (eps s c)) cs)
                       @ ''/status/watched?gh='' @ gh s @ ''&ajax=1'')
                    [(''ep_id'', join '','' (map (\<lambda>c. episode_id (eps s c)) cs))]"
    and "r = transport env (trace s) req"
    and "\<not> (status_code r = 200 \<and> resp_text r = ack)"
  shows "set_watched_eps_in_sub' env cs s = (Inr False, s\<lparr>trace := trace s @ [(req, r)]\<rparr>)"
proof -
  obtain x xs where cs: "cs = x # xs" using assms(2) by (cases cs) auto
  have same: "\<not> list_ex (\<lambda>ep_c. sub_collection (eps s ep_c) \<noteq> sub_collection (eps s x)) cs"
    using assms(3) cs by (rule list_ex_same_parent)
  show ?thesis
    using assms(1,4,5,6) same unfolding cs
    by (auto simp add: set_watched_eps_in_sub'_def action_defs Let_def)
qed

lemma set_watched_acked:
  assumes "logged_in s" and "cs \<noteq> []" and "\<forall>c\<in>set cs. sub_collection (eps s c) = Some p"
    and "req = POST (base_url s @ ''/subject/ep/'' @ last (map (\<lambda>c. episode_id (eps s c)) cs)
                       @ ''/status/watched?gh='' @ gh s @ ''&ajax=1'')
                    [(''ep_id'', join '','' (map (\<lambda>c. episode_id (eps s c)) cs))]"
    and "r = transport env (trace s) req"
    and "status_code r = 200 \<and> resp_text r = ack"
    and "req2 = GET (base_url s @ ''/subject/'' @ subject_id (subs s p))"
    and "r2 = transport env (trace s @ [(req, r)]) req2"
  shows "set_watched_eps_in_sub' env cs s =
     (case n_watched_eps_from_html env (recoded env r2) of
        Inl e \<Rightarrow> (Inl e, s\<lparr>trace := trace s @ [(req, r), (req2, r2)]\<rparr>)
      | Inr n \<Rightarrow> (Inr True, fold (set_ep_c_status ''watched'') cs
                     (set_n_watched p n (s\<lparr>trace := trace s @ [(req, r), (req2, r2)]\<rparr>))))"
proof -
  obtain x xs where cs: "cs = x # xs" using assms(2) by (cases cs) auto
  have same: "\<not> list_ex (\<lambda>ep_c. sub_collection (eps s ep_c) \<noteq> sub_collection (eps s x)) cs"
    using assms(3) cs by (rule list_ex_same_parent)
  have px: "sub_collection (eps s x) = Some p" using assms(3) cs by simp
  show ?thesis
    using assms(1,4,5,6,7,8) same px unfolding cs
    by (auto simp add: set_watched_eps_in_sub'_def get_html_for_subject_main'_def action_defs Let_def
        split: sum.splits)
qed


lemma fold_set_ep_c_status:
  "fold (set_ep_c_status v) cs s
     = s\<lparr>eps := (\<lambda>c. if c \<in> set cs then (eps s c)\<lparr>ep_c_status := Some v\<rparr> else eps s c)\<rparr>"
proof (induction cs arbitrary: s)
  case Nil
  show ?case by simp
next
  case (Cons a cs)
  show ?case
    by (simp add: Cons.IH) (auto simp: set_ep_c_status_def fun_eq_iff)
qed

text \<open>
  C1, as the code has it. \<^verbatim>\<open>_set_watched_eps_in_sub\<close> on a logged-in session, for a
  non-empty list \<open>cs\<close> of episode collections that all have the subject collection \<open>p\<close>
  as parent. Let \<open>r\<close> be the response to the batch write.
  \<^item> If its status is 200 and its body is exactly the acknowledgement, the main page of
    the subject is fetched next. When the watched count \<open>n\<close> is extracted from that
    page, \<open>True\<close> is returned, the \<open>n_watched_eps\<close> of \<open>p\<close> is \<open>n\<close>, every collection of
    \<open>cs\<close> has the status \<open>watched\<close>, and nothing else has changed but the trace.
  \<^item> When the extraction raises on that page, its exception propagates: neither
    \<open>True\<close> nor \<open>False\<close> is returned, and nothing has changed but the trace, which holds
    the write and the fetch.
  \<^item> With any other status or body \<open>False\<close> is returned and nothing has changed but the
    trace, which holds the one write.
  \<^item> \<open>True\<close> is returned only when the status is 200 and the body is the
    acknowledgement.
\<close>

theorem batch_write_all_or_nothing:
  assumes "logged_in s" and "cs \<noteq> []" and "\<forall>c\<in>set cs. sub_collection (eps s c) = Some p"
    and "req = POST (base_url s @ ''/subject/ep/'' @ last (map (\<lambda>c. episode_id (eps s c)) cs)
                       @ ''/status/watched?gh='' @ gh s @ ''&ajax=1'')
                    [(''ep_id'', join '','' (map (\<lambda>c. episode_id (eps s c)) cs))]"
    and "r = transport env (trace s) req"
    and "req2 = GET (base_url s @ ''/subject/'' @ subject_id (subs s p))"
    and "r2 = transport env (trace s @ [(req, r)]) req2"
  shows
   "(status_code r = 200 \<and> resp_text r = ack \<longrightarrow>
       (\<forall>n. n_watched_eps_from_html env (recoded env r2) = Inr n \<longrightarrow>
          set_watched_eps_in_sub' env cs s
            = (Inr True,
               s\<lparr>trace := trace s @ [(req, r), (req2, r2)],
                  subs := (subs s)(p := (subs s p)\<lparr>n_watched_eps := Some n\<rparr>),
                  eps := (\<lambda>c. if c \<in> set cs then (eps s c)\<lparr>ep_c_status := Some ''watched''\<rparr>
                              else eps s c)\<rparr>)))
    \<and> (\<not> (status_code r = 200 \<and> resp_text r = ack) \<longrightarrow>
          set_watched_eps_in_sub' env cs s = (Inr False, s\<lparr>trace := trace s @ [(req, r)]\<rparr>))
    \<and> (fst (set_watched_eps_in_sub' env cs s) = Inr True \<longrightarrow>
          status_code r = 200 \<and> resp_text r = ack)
    \<and> (status_code r = 200 \<and> resp_text r = ack \<longrightarrow>
         (\<forall>e. n_watched_eps_from_html env (recoded env r2) = Inl e \<longrightarrow>
            set_watched_eps_in_sub' env cs s
              = (Inl e, s\<lparr>trace := trace s @ [(req, r), (req2, r2)]\<rparr>)))"
proof (cases "status_code r = 200 \<and> resp_text r = ack")
  case True
  note acked = set_watched_acked [OF assms(1-5) True assms(6,7)]
  show ?thesis
    using True by (simp add: acked fold_set_ep_c_status set_n_watched_def cong: if_cong)
next
  case False
  note refused = set_watched_refused [OF assms(1-5) False]
  show ?thesis
    using False by (auto simp: refused)
qed

lemma set_watched_trace:
  assumes "logged_in s" and "cs \<noteq> []" and "\<forall>c\<in>set cs. sub_collection (eps s c) = Some p"
    and "req = POST (base_url s @ ''/subject/ep/'' @ last (map (\<lambda>c. episode_id (eps s c)) cs)
                       @ ''/status/watched?gh='' @ gh s @ ''&ajax=1'')
                    [(''ep_id'', join '','' (map (\<lambda>c. episode_id (eps s c)) cs))]"
  shows "take (Suc (length (trace s))) (trace (snd (set_watched_eps_in_sub' env cs s)))
           = trace s @ [(req, transport env (trace s) req)]"
proof (cases "status_code (transport env (trace s) req) = 200
              \<and> resp_text (transport env (trace s) req) = ack")
  case True
  note acked = set_watched_acked [OF assms(1-4) refl True refl refl]
  show ?thesis
    by (simp add: acked fold_set_ep_c_status set_n_watched_def split: sum.splits)
next
  case False
  note refused = set_watched_refused [OF assms(1-4) refl False]
  show ?thesis
    by (simp add: refused)
qed

text \<open>
  C2. A logged-in session, a target \<open>t\<close> with the directive \<open>watched_up_to\<close> and the
  parent \<open>p\<close>, where \<open>t\<close> stands at position \<open>i\<close> of the \<open>ep_collections\<close> of \<open>p\<close>, compares
  equal to itself and no earlier entry compares equal to it, and the entries up to
  \<open>t\<close> name \<open>p\<close> as their parent. Then \<^verbatim>\<open>get_ep_colls_up_to_this\<close> returns exactly the
  first \<open>i + 1\<close> entries in stored order, and the first request that the submission of
  \<open>t\<close> sends is the batch write whose URL carries the episode id of \<open>t\<close> and whose
  \<open>ep_id\<close> field lists the episode ids of that prefix, in order.
\<close>

theorem watched_up_to_prefix:
  assumes "logged_in s"
    and "ep_c_status (eps s t) = Some ''watched_up_to''"
    and "''watched_up_to'' \<in> set (VALID_EP_C_STATUS env)"
    and "sub_collection (eps s t) = Some p"
    and "i < length (ep_collections (subs s p))"
    and "ep_collections (subs s p) ! i = t"
    and "ep_coll_eq env s t t"
    and "\<forall>j<i. \<not> ep_coll_eq env s (ep_collections (subs s p) ! j) t"
    and "\<forall>c\<in>set (take (Suc i) (ep_collections (subs s p))). sub_collection (eps s c) = Some p"
    and "req = POST (base_url s @ ''/subject/ep/'' @ episode_id (eps s t)
                       @ ''/status/watched?gh='' @ gh s @ ''&ajax=1'')
                    [(''ep_id'', join '','' (map (\<lambda>c. episode_id (eps s c))
                                               (take (Suc i) (ep_collections (subs s p)))))]"
  shows "get_ep_colls_up_to_this env t s = (Inr (take (Suc i) (ep_collections (subs s p))), s)
    \<and> take (Suc (length (trace s))) (trace (snd (set_ep_collection env (EpisodeCollection t) s)))
        = trace s @ [(req, transport env (trace s) req)]"
proof -
  let ?xs = "ep_collections (subs s p)"
  let ?pre = "take (Suc i) ?xs"
  have up: "colls_up_to (\<lambda>ep_c. ep_coll_eq env s ep_c t) ?xs = ?pre"
    using assms(5,6,7,8) by (intro colls_up_to_found) auto
  have get: "get_ep_colls_up_to_this env t s = (Inr ?pre, s)"
    by (simp add: get_ep_colls_up_to_this_def assms(4) up ok_def)
  have ne: "?pre \<noteq> []"
    using assms(5) by (cases ?xs) auto
  have "last ?pre = ?xs ! i"
    using assms(5) by (simp add: take_Suc_conv_app_nth)
  then have lst: "last (map (\<lambda>c. episode_id (eps s c)) ?pre) = episode_id (eps s t)"
    using ne assms(6) by (simp add: last_map)
  have set: "set_ep_collection env (EpisodeCollection t) s = set_watched_eps_in_sub' env ?pre s"
    using assms(2,3,4) by (simp add: set_ep_collection_def and_then_def get)
  have "take (Suc (length (trace s))) (trace (snd (set_watched_eps_in_sub' env ?pre s)))
          = trace s @ [(req, transport env (trace s) req)]"
    by (rule set_watched_trace [OF assms(1) ne assms(9)]) (simp add: assms(10) lst)
  with get set show ?thesis by simp
qed

text \<open>
  C3, on the code. The episode collection at address 4 has the directive
  \<open>watched_up_to\<close> and names the subject collection 0 as its parent, but is not among
  the \<open>ep_collections\<close> of that parent. Submitting it does not fail: the loop of
  \<^verbatim>\<open>get_ep_colls_up_to_this\<close> runs to the end and returns the whole list, the batch
  write goes out for \<open>e1,e2,e3,e4\<close> keyed on \<open>e4\<close>, \<open>True\<close> is returned and all four
  episodes are set to \<open>watched\<close>, while the target keeps its directive.
\<close>

theorem target_not_found_writes_whole_list:
  "4 \<notin> set (ep_collections (subs demo_state 0))
   \<and> sub_collection (eps demo_state 4) = Some 0
   \<and> ep_c_status (eps demo_state 4) = Some ''watched_up_to''
   \<and> fst (set_ep_collection (demo_env acking) (EpisodeCollection 4) demo_state) = Inr True
   \<and> map fst (trace (snd (set_ep_collection (demo_env acking) (EpisodeCollection 4) demo_state)))
       = [POST ''http://bgm.tv/subject/ep/e4/status/watched?gh=g&ajax=1''
               [(''ep_id'', ''e1,e2,e3,e4'')],
          GET ''http://bgm.tv/subject/100'']
   \<and> map (\<lambda>c. ep_c_status
                 (eps (snd (set_ep_collection (demo_env acking) (EpisodeCollection 4) demo_state)) c))
         [0, 1, 2, 3, 4]
       = [Some ''watched'', Some ''watched'', Some ''watched'', Some ''watched'',
          Some ''watched_up_to'']"
  by (simp add: set_ep_collection_def get_ep_colls_up_to_this_def set_watched_eps_in_sub'_def
      get_html_for_subject_main'_def recoded_def set_n_watched_def set_ep_c_status_def
      action_defs Let_def demo_state_def demo_env_def demo_subs_def demo_eps_def acking_def
      demo_number_def ack_def)


text \<open>
  On the concrete session, the batch of the first three episodes: acknowledged, the
  count becomes 7 and the three are watched; answered with the body \<open>no\<close> and status
  200, nothing changes; acknowledged but followed by a main page without a count,
  \<open>TypeError\<close> is raised and nothing changes.
\<close>

theorem batch_write_all_or_nothing_witness:
  "logged_in demo_state
   \<and> set_watched_eps_in_sub' (demo_env acking) [0, 1, 2] demo_state
       = (Inr True,
          demo_state\<lparr>trace := trace demo_state @
                        [(POST ''http://bgm.tv/subject/ep/e3/status/watched?gh=g&ajax=1''
                               [(''ep_id'', ''e1,e2,e3'')],
                          \<lparr>status_code = 200, resp_text = ack\<rparr>),
                         (GET ''http://bgm.tv/subject/100'',
                          \<lparr>status_code = 200, resp_text = ''7''\<rparr>)],
                      subs := (subs demo_state)
                                (0 := (subs demo_state 0)\<lparr>n_watched_eps := Some 7\<rparr>),
                      eps := (\<lambda>c. if c \<in> set [0, 1, 2]
                                  then (eps demo_state c)\<lparr>ep_c_status := Some ''watched''\<rparr>
                                  else eps demo_state c)\<rparr>)
   \<and> set_watched_eps_in_sub' (demo_env refusing) [0, 1, 2] demo_state
       = (Inr False,
          demo_state\<lparr>trace := trace demo_state @
                        [(POST ''http://bgm.tv/subject/ep/e3/status/watched?gh=g&ajax=1''
                               [(''ep_id'', ''e1,e2,e3'')],
                          \<lparr>status_code = 200, resp_text = ''no''\<rparr>)]\<rparr>)
   \<and> set_watched_eps_in_sub' (demo_env acking_blank) [0, 1, 2] demo_state
       = (Inl TypeError,
          demo_state\<lparr>trace := trace demo_state @
                        [(POST ''http://bgm.tv/subject/ep/e3/status/watched?gh=g&ajax=1''
                               [(''ep_id'', ''e1,e2,e3'')],
                          \<lparr>status_code = 200, resp_text = ack\<rparr>),
                         (GET ''http://bgm.tv/subject/100'',
                          \<lparr>status_code = 200, resp_text = ''no''\<rparr>)]\<rparr>)"
proof -
  have a: "logged_in demo_state"
    by (simp add: demo_state_def)
  have b: "set_watched_eps_in_sub' (demo_env acking) [0, 1, 2] demo_state
       = (Inr True,
          demo_state\<lparr>trace := trace demo_state @
                        [(POST ''http://bgm.tv/subject/ep/e3/status/watched?gh=g&ajax=1''
                               [(''ep_id'', ''e1,e2,e3'')],
                          \<lparr>status_code = 200, resp_text = ack\<rparr>),
                         (GET ''http://bgm.tv/subject/100'',
                          \<lparr>status_code = 200, resp_text = ''7''\<rparr>)],
                      subs := (subs demo_state)
                                (0 := (subs demo_state 0)\<lparr>n_watched_eps := Some 7\<rparr>),
                      eps := (\<lambda>c. if c \<in> set [0, 1, 2]
                                  then (eps demo_state c)\<lparr>ep_c_status := Some ''watched''\<rparr>
                                  else eps demo_state c)\<rparr>)"
    by (rule batch_write_all_or_nothing [THEN conjunct1, rule_format])
      (auto simp add: demo_state_def demo_subs_def demo_eps_def demo_env_def acking_def
        recoded_def demo_number_def)
  have c: "set_watched_eps_in_sub' (demo_env refusing) [0, 1, 2] demo_state
       = (Inr False,
          demo_state\<lparr>trace := trace demo_state @
                        [(POST ''http://bgm.tv/subject/ep/e3/status/watched?gh=g&ajax=1''
                               [(''ep_id'', ''e1,e2,e3'')],
                          \<lparr>status_code = 200, resp_text = ''no''\<rparr>)]\<rparr>)"
    by (rule batch_write_all_or_nothing [where p = 0, THEN conjunct2, THEN conjunct1, rule_format])
      (auto simp add: demo_state_def demo_subs_def demo_eps_def demo_env_def refusing_def
        ack_def)
  have d: "set_watched_eps_in_sub' (demo_env acking_blank) [0, 1, 2] demo_state
       = (Inl TypeError,
          demo_state\<lparr>trace := trace demo_state @
                        [(POST ''http://bgm.tv/subject/ep/e3/status/watched?gh=g&ajax=1''
                               [(''ep_id'', ''e1,e2,e3'')],
                          \<lparr>status_code = 200, resp_text = ack\<rparr>),
                         (GET ''http://bgm.tv/subject/100'',
                          \<lparr>status_code = 200, resp_text = ''no''\<rparr>)]\<rparr>)"
    by (rule batch_write_all_or_nothing [where p = 0, THEN conjunct2, THEN conjunct2,
          THEN conjunct2, rule_format])
      (auto simp add: demo_state_def demo_subs_def demo_eps_def demo_env_def acking_blank_def
        recoded_def demo_number_def)
  from a b c d show ?thesis by simp
qed

text \<open>
  C1 as the claim words it fails: the batch write for the third episode is answered
  with status 200 and exactly the acknowledgement, but the re-fetched main page shows
  no watched count. The extraction raises \<open>TypeError\<close>, so the submission does not
  return \<open>True\<close>; the count is still 1 and no episode has been set to \<open>watched\<close>.
\<close>

theorem acknowledged_write_without_count_counterexample:
  "acking_blank [] (POST ''http://bgm.tv/subject/ep/e3/status/watched?gh=g&ajax=1''
                         [(''ep_id'', ''e1,e2,e3'')])
     = \<lparr>status_code = 200, resp_text = ack\<rparr>
   \<and> fst (set_ep_collection (demo_env acking_blank) (EpisodeCollection 2) demo_state)
       = Inl TypeError
   \<and> map fst (trace (snd (set_ep_collection (demo_env acking_blank) (EpisodeCollection 2)
                            demo_state)))
       = [POST ''http://bgm.tv/subject/ep/e3/status/watched?gh=g&ajax=1''
               [(''ep_id'', ''e1,e2,e3'')],
          GET ''http://bgm.tv/subject/100'']
   \<and> n_watched_eps
        (subs (snd (set_ep_collection (demo_env acking_blank) (EpisodeCollection 2)
                     demo_state)) 0)
       = Some 1
   \<and> map (\<lambda>c. ep_c_status
                 (eps (snd (set_ep_collection (demo_env acking_blank) (EpisodeCollection 2)
                              demo_state)) c))
         [0, 1, 2]
       = [Some ''queue'', None, Some ''watched_up_to'']"
  by (simp add: set_ep_collection_def get_ep_colls_up_to_this_def set_watched_eps_in_sub'_def
      get_html_for_subject_main'_def recoded_def set_n_watched_def set_ep_c_status_def
      action_defs Let_def demo_state_def demo_env_def demo_subs_def demo_eps_def
      acking_blank_def demo_number_def ack_def)

text \<open>
  The example of the specification: episodes \<open>e1\<close> to \<open>e4\<close>, target \<open>e3\<close>; the batch is
  \<open>e1,e2,e3\<close> and the write is keyed on \<open>e3\<close>.
\<close>

theorem watched_up_to_prefix_witness:
  "logged_in demo_state
   \<and> ep_c_status (eps demo_state 2) = Some ''watched_up_to''
   \<and> ep_collections (subs demo_state 0) = [0, 1, 2, 3]
   \<and> get_ep_colls_up_to_this (demo_env acking) 2 demo_state = (Inr [0, 1, 2], demo_state)
   \<and> take (Suc (length (trace demo_state)))
        (trace (snd (set_ep_collection (demo_env acking) (EpisodeCollection 2) demo_state)))
      = trace demo_state @
          [(POST ''http://bgm.tv/subject/ep/e3/status/watched?gh=g&ajax=1''
                 [(''ep_id'', ''e1,e2,e3'')],
            \<lparr>status_code = 200, resp_text = ack\<rparr>)]"
proof -
  have a: "logged_in demo_state"
    by (simp add: demo_state_def)
  have b: "ep_c_status (eps demo_state 2) = Some ''watched_up_to''"
    by (simp add: demo_state_def demo_eps_def)
  have c: "''watched_up_to'' \<in> set (VALID_EP_C_STATUS (demo_env acking))"
    by (simp add: demo_env_def)
  have d: "sub_collection (eps demo_state 2) = Some 0"
    by (simp add: demo_state_def demo_eps_def)
  have xs: "ep_collections (subs demo_state 0) = [0, 1, 2, 3]"
    by (simp add: demo_state_def demo_subs_def)
  have e: "2 < length (ep_collections (subs demo_state 0))"
    by (simp add: xs)
  have f: "ep_collections (subs demo_state 0) ! 2 = 2"
    by (simp add: xs)
  have g: "ep_coll_eq (demo_env acking) demo_state 2 2"
    by (simp add: demo_env_def)
  have h: "\<forall>j<2. \<not> ep_coll_eq (demo_env acking) demo_state
                      (ep_collections (subs demo_state 0) ! j) 2"
    by (simp add: demo_env_def xs less_Suc_eq numeral_2_eq_2 nth_Cons')
  have pre: "take (Suc 2) (ep_collections (subs demo_state 0)) = [0, 1, 2]"
    by (simp add: xs numeral_2_eq_2)
  have i: "\<forall>c\<in>set (take (Suc 2) (ep_collections (subs demo_state 0))).
             sub_collection (eps demo_state c) = Some 0"
    unfolding pre by (auto simp add: demo_state_def demo_eps_def)
  have req: "POST ''http://bgm.tv/subject/ep/e3/status/watched?gh=g&ajax=1''
                 [(''ep_id'', ''e1,e2,e3'')]
       = POST (base_url demo_state @ ''/subject/ep/'' @ episode_id (eps demo_state 2)
                       @ ''/status/watched?gh='' @ gh demo_state @ ''&ajax=1'')
                    [(''ep_id'', join '','' (map (\<lambda>c. episode_id (eps demo_state c))
                                (take (Suc 2) (ep_collections (subs demo_state 0)))))]"
    unfolding pre by (simp add: demo_state_def demo_eps_def)
  have r: "transport (demo_env acking) (trace demo_state)
             (POST ''http://bgm.tv/subject/ep/e3/status/watched?gh=g&ajax=1''
                 [(''ep_id'', ''e1,e2,e3'')]) = \<lparr>status_code = 200, resp_text = ack\<rparr>"
    by (simp add: demo_env_def acking_def)
  from a b xs watched_up_to_prefix [OF a b c d e f g h i req]
  show ?thesis unfolding pre r by simp
qed

section \<open>The paginated listing\<close>

lemma page_ok:
  assumes "logged_in s"
    and "transport env (trace s) (GET (page_url url p)) = r"
    and "status_code r = 200"
    and "from_soup (recoded env r) c = Inr xs"
  shows "get_dummy_colls_on_page' env from_soup url p c s
           = (Inr xs, s\<lparr>trace := trace s @ [(GET (page_url url p), r)]\<rparr>)"
  using assms by (simp add: get_dummy_colls_on_page'_def action_defs Let_def)

lemma page_bad:
  assumes "logged_in s"
    and "transport env (trace s) (GET (page_url url p)) = r"
    and "status_code r \<noteq> 200"
  shows "get_dummy_colls_on_page' env from_soup url p c s
           = (Inl RequestFailedError,
              s\<lparr>trace := trace s @ [(GET (page_url url p), r)]\<rparr>)"
  using assms by (simp add: get_dummy_colls_on_page'_def action_defs Let_def)

lemma page_result_ok:
  assumes "get_dummy_colls_on_page' env from_soup url p c s = (Inr xs, s')"
  shows "status_code (transport env (trace s) (GET (page_url url p))) = 200"
  using assms
  by (auto simp add: get_dummy_colls_on_page'_def action_defs Let_def split: if_splits)

lemma pages_all_ok:
  assumes "\<forall>tr. \<forall>p\<in>set ps. transport env tr (GET (page_url url p)) = page p"
    and "\<forall>p\<in>set ps. status_code (page p) = 200
                      \<and> from_soup (recoded env (page p)) c = Inr (items p)"
    and "logged_in s"
  shows "dummy_colls_of_pages env from_soup url c ps acc s
           = (Inr (acc @ concat (map items ps)),
              s\<lparr>trace := trace s
                   @ map (\<lambda>p. (GET (page_url url p), page p)) ps\<rparr>)"
  using assms
proof (induction ps arbitrary: acc s)
  case Nil
  show ?case by (simp add: ok_def)
next
  case (Cons p ps)
  let ?s1 = "s\<lparr>trace := trace s @ [(GET (page_url url p), page p)]\<rparr>"
  have step: "get_dummy_colls_on_page' env from_soup url p c s = (Inr (items p), ?s1)"
    using Cons.prems by (intro page_ok) auto
  have rest: "dummy_colls_of_pages env from_soup url c ps (acc @ items p) ?s1
           = (Inr ((acc @ items p) @ concat (map items ps)),
              ?s1\<lparr>trace := trace ?s1
                   @ map (\<lambda>p. (GET (page_url url p), page p)) ps\<rparr>)"
    using Cons.prems by (intro Cons.IH) auto
  show ?case
    by (simp add: and_then_def step rest)
qed

lemma pages_first_bad:
  assumes "\<forall>tr. \<forall>p\<in>set (good @ [k]).
              transport env tr (GET (page_url url p)) = page p"
    and "\<forall>p\<in>set good. status_code (page p) = 200
                      \<and> from_soup (recoded env (page p)) c = Inr (items p)"
    and "status_code (page k) \<noteq> 200"
    and "logged_in s"
  shows "dummy_colls_of_pages env from_soup url c (good @ k # rest) acc s
           = (Inl RequestFailedError,
              s\<lparr>trace := trace s
                   @ map (\<lambda>p. (GET (page_url url p), page p)) (good @ [k])\<rparr>)"
  using assms
proof (induction good arbitrary: acc s)
  case Nil
  have "get_dummy_colls_on_page' env from_soup url k c s
           = (Inl RequestFailedError,
              s\<lparr>trace := trace s @ [(GET (page_url url k), page k)]\<rparr>)"
    using Nil.prems by (intro page_bad) auto
  then show ?case by (simp add: and_then_def)
next
  case (Cons p good)
  let ?s1 = "s\<lparr>trace := trace s @ [(GET (page_url url p), page p)]\<rparr>"
  have step: "get_dummy_colls_on_page' env from_soup url p c s = (Inr (items p), ?s1)"
    using Cons.prems by (intro page_ok) auto
  have rest: "dummy_colls_of_pages env from_soup url c (good @ k # rest) (acc @ items p) ?s1
           = (Inl RequestFailedError,
              ?s1\<lparr>trace := trace ?s1
                   @ map (\<lambda>p. (GET (page_url url p), page p)) (good @ [k])\<rparr>)"
    using Cons.prems by (intro Cons.IH) auto
  show ?case
    by (simp add: and_then_def step rest)
qed

lemma pages_some_bad:
  assumes "\<forall>tr. \<forall>p\<in>set ps. transport env tr (GET (page_url url p)) = page p"
    and "\<exists>k\<in>set ps. status_code (page k) \<noteq> 200"
  shows "isl (fst (dummy_colls_of_pages env from_soup url c ps acc s))"
  using assms
proof (induction ps arbitrary: acc s)
  case Nil
  then show ?case by simp
next
  case (Cons p ps)
  obtain res s1 where step: "get_dummy_colls_on_page' env from_soup url p c s = (res, s1)"
    by (cases "get_dummy_colls_on_page' env from_soup url p c s")
  show ?case
  proof (cases res)
    case (Inl e)
    then show ?thesis by (simp add: and_then_def step)
  next
    case (Inr xs)
    have "status_code (transport env (trace s) (GET (page_url url p))) = 200"
      using step Inr by (auto intro: page_result_ok)
    then have "status_code (page p) = 200"
      using Cons.prems(1) by simp
    then have "\<exists>k\<in>set ps. status_code (page k) \<noteq> 200"
      using Cons.prems(2) by auto
    then have "isl (fst (dummy_colls_of_pages env from_soup url c ps (acc @ xs) s1))"
      using Cons.prems(1) by (intro Cons.IH) auto
    then show ?thesis by (simp add: and_then_def step Inr)
  qed
qed


lemma c_status_map_range: "map_of c_status_map c = Some slug \<Longrightarrow> c \<in> set [1..5]"
  by (auto simp add: c_status_map_def split: if_splits)

lemma get_dummy_collections_unfold:
  assumes "logged_in s"
    and "sub_type \<in> set [''anime'', ''book'', ''game'', ''real'']"
    and "map_of c_status_map c_status = Some slug"
    and "url = base_url s @ ''/'' @ sub_type @ ''/list/''
                 @ (case uid of None \<Rightarrow> user_id s | Some u \<Rightarrow> if u = [] then user_id s else u)
                 @ ''/'' @ slug"
    and "r0 = transport env (trace s) (GET url)"
    and "get_n_pages env (resp_text r0) = Inr n"
  shows "get_dummy_collections env from_soup sub_type c_status uid s
           = dummy_colls_of_pages env from_soup url c_status [1..n] []
               (s\<lparr>trace := trace s @ [(GET url, r0)]\<rparr>)"
proof -
  have "c_status \<in> set [1..5]"
    using assms(3) by (rule c_status_map_range)
  then show ?thesis
    using assms unfolding get_dummy_collections_def
    by (simp add: action_defs Let_def)
qed

text \<open>
  The page loop. \<^verbatim>\<open>get_dummy_collections\<close> on a logged-in session with a legal subject
  type and a legal status, where the listing announces \<open>n\<close> pages and the remote service
  answers
  the request for page \<open>p\<close> with \<open>page p\<close> whenever it is asked (a snapshot of the
  listing). If every page from 1 to \<open>n\<close> has status 200 and its entries \<open>items p\<close> are
  extracted, the result is the concatenation of the entries of the pages 1 to \<open>n\<close> in
  this order, and the pages were requested in this order. If page \<open>k\<close> is the first
  with a status other than 200, the call raises \<open>RequestFailedError\<close> after requesting
  the pages 1 to \<open>k\<close>. And whenever some page has a status other than 200 the call
  raises: no list, partial or not, is returned.
\<close>

theorem listing_concatenates_pages:
  assumes "logged_in s"
    and "sub_type \<in> set [''anime'', ''book'', ''game'', ''real'']"
    and "map_of c_status_map c_status = Some slug"
    and "url = base_url s @ ''/'' @ sub_type @ ''/list/''
                 @ (case uid of None \<Rightarrow> user_id s | Some u \<Rightarrow> if u = [] then user_id s else u)
                 @ ''/'' @ slug"
    and "r0 = transport env (trace s) (GET url)"
    and "get_n_pages env (resp_text r0) = Inr n"
    and "\<forall>tr. \<forall>p\<in>{1..n}. transport env tr (GET (page_url url p)) = page p"
  shows
   "((\<forall>p\<in>{1..n}. status_code (page p) = 200
                    \<and> from_soup (recoded env (page p)) c_status = Inr (items p))
      \<longrightarrow> get_dummy_collections env from_soup sub_type c_status uid s
          = (Inr (concat (map items [1..n])),
             s\<lparr>trace := trace s @ (GET url, r0)
                          # map (\<lambda>p. (GET (page_url url p), page p)) [1..n]\<rparr>))
    \<and> (\<forall>k\<in>{1..n}. status_code (page k) \<noteq> 200
          \<and> (\<forall>p\<in>{1..<k}. status_code (page p) = 200
                           \<and> from_soup (recoded env (page p)) c_status = Inr (items p))
      \<longrightarrow> get_dummy_collections env from_soup sub_type c_status uid s
          = (Inl RequestFailedError,
             s\<lparr>trace := trace s @ (GET url, r0)
                          # map (\<lambda>p. (GET (page_url url p), page p)) [1..k]\<rparr>))
    \<and> ((\<exists>k\<in>{1..n}. status_code (page k) \<noteq> 200)
      \<longrightarrow> isl (fst (get_dummy_collections env from_soup sub_type c_status uid s)))"
proof -
  let ?s0 = "s\<lparr>trace := trace s @ [(GET url, r0)]\<rparr>"
  note unfold = get_dummy_collections_unfold [OF assms(1-6), of from_soup]
  have snap: "\<forall>tr. \<forall>p\<in>set [1..n]. transport env tr (GET (page_url url p)) = page p"
    using assms(7) by simp
  have s0: "logged_in ?s0"
    using assms(1) by simp
  have all_ok: "get_dummy_collections env from_soup sub_type c_status uid s
          = (Inr (concat (map items [1..n])),
             s\<lparr>trace := trace s @ (GET url, r0)
                          # map (\<lambda>p. (GET (page_url url p), page p)) [1..n]\<rparr>)"
    if ok: "\<forall>p\<in>{1..n}. status_code (page p) = 200
                    \<and> from_soup (recoded env (page p)) c_status = Inr (items p)"
  proof -
    have "\<forall>p\<in>set [1..n]. status_code (page p) = 200
                    \<and> from_soup (recoded env (page p)) c_status = Inr (items p)"
      using ok by simp
    from pages_all_ok [where page = page and items = items and url = url
        and from_soup = from_soup and c = c_status and acc = "[]", OF snap this s0]
    show ?thesis
      by (simp add: unfold)
  qed
  have first_bad: "get_dummy_collections env from_soup sub_type c_status uid s
          = (Inl RequestFailedError,
             s\<lparr>trace := trace s @ (GET url, r0)
                          # map (\<lambda>p. (GET (page_url url p), page p)) [1..k]\<rparr>)"
    if k: "k \<in> {1..n}" and bad: "status_code (page k) \<noteq> 200"
      and good: "\<forall>p\<in>{1..<k}. status_code (page p) = 200
                           \<and> from_soup (recoded env (page p)) c_status = Inr (items p)"
    for k
  proof -
    have split: "[1..n] = [1..k - 1] @ k # [k + 1..n]"
      using k by (intro upto_split3) auto
    have upto_k: "[1..k] = [1..k - 1] @ [k]"
      using k by (intro upto_rec2) auto
    have a: "\<forall>tr. \<forall>p\<in>set ([1..k - 1] @ [k]).
                transport env tr (GET (page_url url p)) = page p"
      using assms(7) k by auto
    have b: "\<forall>p\<in>set [1..k - 1]. status_code (page p) = 200
                      \<and> from_soup (recoded env (page p)) c_status = Inr (items p)"
      using good by auto
    from pages_first_bad [where page = page and items = items and url = url
        and from_soup = from_soup and c = c_status and acc = "[]" and rest = "[k + 1..n]",
        OF a b bad s0]
    show ?thesis
      by (simp add: unfold split upto_k)
  qed
  have some_bad: "isl (fst (get_dummy_collections env from_soup sub_type c_status uid s))"
    if "\<exists>k\<in>{1..n}. status_code (page k) \<noteq> 200"
  proof -
    have "\<exists>k\<in>set [1..n]. status_code (page k) \<noteq> 200"
      using that by simp
    from pages_some_bad [where page = page and url = url, OF snap this] show ?thesis
      by (simp add: unfold)
  qed
  from all_ok first_bad some_bad show ?thesis by blast
qed


lemma str_int_small: "str_int 1 = ''1''" "str_int 2 = ''2''" "str_int 3 = ''3''"
  by (simp_all add: str_int_def str_nat.simps digit_def)

lemma upto_1_3: "[1..3] = [1, 2, 3::int]" "[1..2] = [1, 2::int]"
  by (simp_all add: upto.simps)

lemma in_1_3: "p \<in> {1..3} \<Longrightarrow> p = 1 \<or> p = 2 \<or> p = (3::int)"
  by auto

text \<open>
  The listing of three pages: the five entries come back in page order; with a second
  page of status 500 the call raises \<open>RequestFailedError\<close> after the request for page 2.
\<close>

theorem listing_concatenates_pages_witness:
  "logged_in demo_state
   \<and> get_dummy_collections (demo_env listing) letters ''anime'' 3 None demo_state
       = (Inr [''a'', ''b'', ''c'', ''d'', ''e''],
          demo_state\<lparr>trace := trace demo_state @
             [(GET ''http://bgm.tv/anime/list/42/do'', \<lparr>status_code = 200, resp_text = ''3''\<rparr>),
              (GET ''http://bgm.tv/anime/list/42/do?page=1'',
               \<lparr>status_code = 200, resp_text = ''ab''\<rparr>),
              (GET ''http://bgm.tv/anime/list/42/do?page=2'',
               \<lparr>status_code = 200, resp_text = ''c''\<rparr>),
              (GET ''http://bgm.tv/anime/list/42/do?page=3'',
               \<lparr>status_code = 200, resp_text = ''de''\<rparr>)]\<rparr>)
   \<and> get_dummy_collections (demo_env broken_listing) letters ''anime'' 3 None demo_state
       = (Inl RequestFailedError,
          demo_state\<lparr>trace := trace demo_state @
             [(GET ''http://bgm.tv/anime/list/42/do'', \<lparr>status_code = 200, resp_text = ''3''\<rparr>),
              (GET ''http://bgm.tv/anime/list/42/do?page=1'',
               \<lparr>status_code = 200, resp_text = ''ab''\<rparr>),
              (GET ''http://bgm.tv/anime/list/42/do?page=2'',
               \<lparr>status_code = 500, resp_text = ''c''\<rparr>)]\<rparr>)"
proof -
  let ?U = "''http://bgm.tv/anime/list/42/do''"
  let ?R0 = "\<lparr>status_code = 200, resp_text = ''3''\<rparr>"
  let ?page = "\<lambda>p. listing [] (GET (page_url ?U p))"
  let ?page' = "\<lambda>p. broken_listing [] (GET (page_url ?U p))"
  let ?items = "\<lambda>p. map (\<lambda>c. [c]) (resp_text (?page p))"
  have a: "logged_in demo_state"
    by (simp add: demo_state_def)
  have b: "''anime'' \<in> set [''anime'', ''book'', ''game'', ''real'']"
    by simp
  have c: "map_of c_status_map 3 = Some ''do''"
    by (simp add: c_status_map_def)
  have d: "?U = base_url demo_state @ ''/'' @ ''anime'' @ ''/list/''
                 @ (case None of None \<Rightarrow> user_id demo_state
                    | Some u \<Rightarrow> if u = [] then user_id demo_state else u)
                 @ ''/'' @ ''do''"
    by (simp add: demo_state_def)
  have e: "?R0 = transport (demo_env listing) (trace demo_state) (GET ?U)"
    "?R0 = transport (demo_env broken_listing) (trace demo_state) (GET ?U)"
    by (simp_all add: demo_env_def listing_def broken_listing_def)
  have f: "get_n_pages (demo_env listing) (resp_text ?R0) = Inr 3"
    "get_n_pages (demo_env broken_listing) (resp_text ?R0) = Inr 3"
    by (simp_all add: demo_env_def demo_number_def)
  have g: "\<forall>tr. \<forall>p\<in>{1..3}. transport (demo_env listing) tr (GET (page_url ?U p)) = ?page p"
    by (simp add: demo_env_def listing_def)
  have g': "\<forall>tr. \<forall>p\<in>{1..3}.
              transport (demo_env broken_listing) tr (GET (page_url ?U p)) = ?page' p"
    by (simp add: demo_env_def listing_def broken_listing_def)
  have pages: "?page 1 = \<lparr>status_code = 200, resp_text = ''ab''\<rparr>"
    "?page 2 = \<lparr>status_code = 200, resp_text = ''c''\<rparr>"
    "?page 3 = \<lparr>status_code = 200, resp_text = ''de''\<rparr>"
    "?page' 1 = \<lparr>status_code = 200, resp_text = ''ab''\<rparr>"
    "?page' 2 = \<lparr>status_code = 500, resp_text = ''c''\<rparr>"
    by (simp_all add: listing_def broken_listing_def page_url_def str_int_small)
  have urls: "page_url ?U 1 = ''http://bgm.tv/anime/list/42/do?page=1''"
    "page_url ?U 2 = ''http://bgm.tv/anime/list/42/do?page=2''"
    "page_url ?U 3 = ''http://bgm.tv/anime/list/42/do?page=3''"
    by (simp_all add: page_url_def str_int_small)
  have h: "\<forall>p\<in>{1..3}. status_code (?page p) = 200
             \<and> letters (recoded (demo_env listing) (?page p)) 3 = Inr (?items p)"
    by (auto dest!: in_1_3 simp add: pages letters_def recoded_def demo_env_def)
  have i: "status_code (?page' 2) \<noteq> 200
           \<and> (\<forall>p\<in>{1..<2}. status_code (?page' p) = 200
                 \<and> letters (recoded (demo_env broken_listing) (?page' p)) 3 = Inr (?items p))"
  proof -
    have one: "p \<in> {1..<2} \<Longrightarrow> p = 1" for p :: int by auto
    show ?thesis
      by (auto dest!: one simp add: pages letters_def recoded_def demo_env_def)
  qed
  have two: "(2::int) \<in> {1..3}" by simp
  note good = listing_concatenates_pages [OF a b c d e(1) f(1) g, where from_soup = letters and items = ?items,
      THEN conjunct1, THEN mp, OF h]
  note bad = listing_concatenates_pages [OF a b c d e(2) f(2) g', where from_soup = letters and items = ?items,
      THEN conjunct2, THEN conjunct1, THEN bspec, OF two, THEN mp, OF i]
  from a good bad show ?thesis
    by (simp add: upto_1_3 urls listing_def broken_listing_def)
qed

text \<open>
  C9, on the code. The first fetch of \<^verbatim>\<open>get_dummy_collections\<close>, the one that discovers
  the page count, has no status test; only \<^verbatim>\<open>_get_dummy_colls_on_page\<close> has one. Here
  that first fetch is answered with status 500 and a body that announces three
  pages, and the three pages answer with status 200: the call does not raise
  \<open>RequestFailedError\<close>, it returns the five entries.
\<close>

theorem first_fetch_status_is_not_checked:
  "logged_in demo_state
   \<and> listing_first_500 [] (GET ''http://bgm.tv/anime/list/42/do'')
       = \<lparr>status_code = 500, resp_text = ''3''\<rparr>
   \<and> fst (get_dummy_collections (demo_env listing_first_500) letters ''anime'' 3 None demo_state)
       = Inr [''a'', ''b'', ''c'', ''d'', ''e'']
   \<and> map (\<lambda>x. (fst x, status_code (snd x)))
         (trace (snd (get_dummy_collections (demo_env listing_first_500) letters ''anime'' 3
                        None demo_state)))
       = [(GET ''http://bgm.tv/anime/list/42/do'', 500),
          (GET ''http://bgm.tv/anime/list/42/do?page=1'', 200),
          (GET ''http://bgm.tv/anime/list/42/do?page=2'', 200),
          (GET ''http://bgm.tv/anime/list/42/do?page=3'', 200)]"
  by (simp add: get_dummy_collections_def get_dummy_colls_on_page'_def page_url_def
      str_int_small upto_1_3 c_status_map_def recoded_def letters_def action_defs Let_def
      demo_state_def demo_env_def demo_number_def listing_first_500_def listing_def)

section \<open>The watched count comes from the server\<close>

lemma same_count: "n_watched_eps (subs s' p) = n_watched_eps (subs s p)
  \<Longrightarrow> count_from_server env s s' p"
  by (simp add: count_from_server_def)

lemma set_sub_count:
  "n_watched_eps (subs (snd (set_sub_collection env c s)) p) = n_watched_eps (subs s p)"
  by (simp add: set_sub_collection_def action_defs Let_def
      split: collection.splits option.splits sum.splits)

lemma remove_count:
  "n_watched_eps (subs (snd (remove_collection env c s)) p) = n_watched_eps (subs s p)"
  by (simp add: remove_collection_def remove_sub_collection'_def remove_ep_collection'_def
      clear_c_status_def action_defs Let_def
      split: collection.splits option.splits sum.splits)

lemma set_n_count:
  "n_watched_eps (subs (snd (set_n_watched_eps env a s)) p) = n_watched_eps (subs s p)"
  by (simp add: set_n_watched_eps_def set_n_watched_eps'_def get_html_for_subject_eps'_def
      install_ep_colls_def action_defs Let_def
      split: collection.splits option.splits sum.splits)

lemma logout_count:
  "n_watched_eps (subs (snd (logout env s)) p) = n_watched_eps (subs s p)"
  by (simp add: logout_def action_defs Let_def)

lemma page_subs:
  "subs (snd (get_dummy_colls_on_page' env f url q c s)) = subs s"
  by (simp add: get_dummy_colls_on_page'_def action_defs Let_def split: sum.splits)

lemma pages_subs:
  "subs (snd (dummy_colls_of_pages env f url c ps acc s)) = subs s"
proof (induction ps arbitrary: acc s)
  case Nil
  show ?case by (simp add: ok_def)
next
  case (Cons q ps)
  obtain res s1 where step: "get_dummy_colls_on_page' env f url q c s = (res, s1)"
    by (cases "get_dummy_colls_on_page' env f url q c s")
  have "subs s1 = subs s"
    using page_subs [of env f url q c s] by (simp add: step)
  then show ?case
    by (cases res) (simp_all add: and_then_def step Cons.IH)
qed

lemma dummy_subs:
  "subs (snd (get_dummy_collections env f t c u s)) = subs s"
  by (simp add: get_dummy_collections_def action_defs Let_def pages_subs
      split: option.splits sum.splits)

lemma html_main_subs: "subs (snd (get_html_for_subject_main' env i s)) = subs s"
  by (simp add: get_html_for_subject_main'_def action_defs Let_def)

lemma html_eps_subs: "subs (snd (get_html_for_subject_eps' env i s)) = subs s"
  by (simp add: get_html_for_subject_eps'_def action_defs Let_def)

lemma sub_id_subs: "subs (snd (get_sub_id_for_ep' env i s)) = subs s"
  by (simp add: get_sub_id_for_ep'_def get_html_for_ep'_def action_defs Let_def)

lemma two_pages_subs:
  assumes "\<And>s. subs (snd (m s)) = subs s" and "\<And>x s. subs (snd (g x s)) = subs s"
  shows "subs (snd (and_then m (\<lambda>x. and_then (g x) (\<lambda>y. lift (f x y))) s)) = subs s"
proof -
  obtain r s1 where m: "m s = (r, s1)" by (cases "m s")
  have s1: "subs s1 = subs s" using assms(1) [of s] by (simp add: m)
  show ?thesis
  proof (cases r)
    case (Inl e)
    then show ?thesis by (simp add: and_then_def m s1)
  next
    case (Inr x)
    obtain r2 s2 where g: "g x s1 = (r2, s2)" by (cases "g x s1")
    have "subs s2 = subs s1" using assms(2) [of x s1] by (simp add: g)
    then show ?thesis
      by (cases r2) (simp_all add: and_then_def lift_def m Inr g s1)
  qed
qed

lemma get_subject_subs: "subs (snd (get_subject env f i s)) = subs s"
  unfolding get_subject_def by (rule two_pages_subs) (rule html_main_subs html_eps_subs)+

lemma get_episode_subs: "subs (snd (get_episode env f i s)) = subs s"
  unfolding get_episode_def by (rule two_pages_subs) (rule sub_id_subs html_eps_subs)+

lemma get_episodes_subs: "subs (snd (get_episodes_for_sub env f i s)) = subs s"
  by (simp add: get_episodes_for_sub_def get_html_for_subject_eps'_def action_defs Let_def)

lemma get_sub_collection_subs: "subs (snd (get_sub_collection env f i s)) = subs s"
  unfolding get_sub_collection_def by (rule two_pages_subs) (rule html_main_subs html_eps_subs)+

lemma get_sub_collection_with_subs:
  "subs (snd (get_sub_collection_with_subject env f idf x s)) = subs s"
  unfolding get_sub_collection_with_subject_def
  by (rule two_pages_subs) (rule html_main_subs html_eps_subs)+

lemma get_ep_collection_subs: "subs (snd (get_ep_collection env f i s)) = subs s"
  unfolding get_ep_collection_def by (rule two_pages_subs) (rule sub_id_subs html_eps_subs)+

lemma get_ep_collection_with_subs:
  "subs (snd (get_ep_collection_with_episode env f idf x s)) = subs s"
  unfolding get_ep_collection_with_episode_def
  by (rule two_pages_subs) (rule sub_id_subs html_eps_subs)+


lemma fold_set_ep_c_status_subs: "subs (fold (set_ep_c_status v) cs s) = subs s"
  by (induction cs arbitrary: s) (simp_all add: set_ep_c_status_def)

lemma fold_set_ep_c_status_trace: "trace (fold (set_ep_c_status v) cs s) = trace s"
  by (induction cs arbitrary: s) (simp_all add: set_ep_c_status_def)

lemma batch_orphans_subs:
  assumes "cs = x # xs" and "sub_collection (eps s x) = None"
  shows "subs (snd (set_watched_eps_in_sub' env cs s)) = subs s"
  using assms
  by (simp add: set_watched_eps_in_sub'_def action_defs Let_def)

lemma batch_mixed_subs:
  assumes "cs = x # xs"
    and "list_ex (\<lambda>ep_c. sub_collection (eps s ep_c) \<noteq> sub_collection (eps s x)) cs"
  shows "snd (set_watched_eps_in_sub' env cs s) = s"
  using assms
  by (simp add: set_watched_eps_in_sub'_def raise_def Let_def)

lemma batch_count:
  "count_from_server env s (snd (set_watched_eps_in_sub' env cs s)) p
   \<and> (n_watched_eps (subs (snd (set_watched_eps_in_sub' env cs s)) p) \<noteq> n_watched_eps (subs s p)
        \<longrightarrow> fst (set_watched_eps_in_sub' env cs s) = Inr True)"
proof -
  let ?R = "set_watched_eps_in_sub' env cs s"
  have kept: ?thesis if "subs (snd ?R) = subs s"
    using that by (simp add: count_from_server_def)
  show ?thesis
  proof (cases cs)
    case Nil
    then show ?thesis
      by (intro kept) (simp add: set_watched_eps_in_sub'_def raise_def)
  next
    case (Cons x xs)
    show ?thesis
    proof (cases "logged_in s")
      case False
      then have "snd ?R = s"
        using set_watched_fails [of s env cs] by (simp add: fails_untouched_def)
      then show ?thesis by (intro kept) simp
    next
      case True
      note logged = this
      show ?thesis
      proof (cases "list_ex (\<lambda>ep_c. sub_collection (eps s ep_c) \<noteq> sub_collection (eps s x)) cs")
        case True
        then have "snd ?R = s" using Cons by (intro batch_mixed_subs)
        then show ?thesis by (intro kept) simp
      next
        case False
        note same = this
        show ?thesis
        proof (cases "sub_collection (eps s x)")
          case None
          then show ?thesis using Cons by (intro kept batch_orphans_subs)
        next
          case (Some q)
          have all: "\<forall>c\<in>set cs. sub_collection (eps s c) = Some q"
            using same Some by (auto simp: list_ex_iff)
          have ne: "cs \<noteq> []" using Cons by simp
          let ?req = "POST (base_url s @ ''/subject/ep/''
                              @ last (map (\<lambda>c. episode_id (eps s c)) cs)
                              @ ''/status/watched?gh='' @ gh s @ ''&ajax=1'')
                           [(''ep_id'', join '','' (map (\<lambda>c. episode_id (eps s c)) cs))]"
          let ?r = "transport env (trace s) ?req"
          let ?req2 = "GET (base_url s @ ''/subject/'' @ subject_id (subs s q))"
          let ?r2 = "transport env (trace s @ [(?req, ?r)]) ?req2"
          show ?thesis
          proof (cases "status_code ?r = 200 \<and> resp_text ?r = ack")
            case False
            note refused = set_watched_refused [OF logged ne all refl refl False]
            show ?thesis by (intro kept) (unfold refused, simp)
          next
            case True
            note acked = set_watched_acked [OF logged ne all refl refl True refl refl]
            show ?thesis
            proof (cases "n_watched_eps_from_html env (recoded env ?r2)")
              case (Inl e)
              show ?thesis by (intro kept) (unfold acked Inl, simp)
            next
              case (Inr n)
              have res: "?R = (Inr True, fold (set_ep_c_status ''watched'') cs
                     (set_n_watched q n (s\<lparr>trace := trace s @ [(?req, ?r), (?req2, ?r2)]\<rparr>)))"
                unfolding acked Inr by simp
              have "parsed_from env ?r2 n"
                unfolding parsed_from_def by (rule disjI2) (rule Inr)
              then show ?thesis
                unfolding res
                by (simp add: count_from_server_def fold_set_ep_c_status_subs
                    fold_set_ep_c_status_trace set_n_watched_def)
            qed
          qed
        qed
      qed
    qed
  qed
qed

lemma set_ep_count:
  "count_from_server env s (snd (set_ep_collection env c s)) p"
proof (cases c)
  case (EpisodeCollection a)
  show ?thesis
  proof (cases "ep_c_status (eps s a) = Some ''watched_up_to''
                \<and> ''watched_up_to'' \<in> set (VALID_EP_C_STATUS env)
                \<and> sub_collection (eps s a) \<noteq> None")
    case True
    then obtain q where q: "sub_collection (eps s a) = Some q" by auto
    have "set_ep_collection env c s
            = set_watched_eps_in_sub' env
                (colls_up_to (\<lambda>ep_c. ep_coll_eq env s ep_c a) (ep_collections (subs s q))) s"
      using True q EpisodeCollection
      by (simp add: set_ep_collection_def get_ep_colls_up_to_this_def and_then_def ok_def)
    then show ?thesis
      using batch_count [of env s _ p] by simp
  next
    case False
    then show ?thesis
      using EpisodeCollection
      by (auto simp add: set_ep_collection_def count_from_server_def parsed_from_def
          set_n_watched_def action_defs Let_def
          split: option.splits sum.splits)
  qed
qed (simp_all add: set_ep_collection_def raise_def count_from_server_def)

lemma set_ep_batch_true:
  assumes "ep_c_status (eps s a) = Some ''watched_up_to''"
    and "n_watched_eps (subs (snd (set_ep_collection env (EpisodeCollection a) s)) p)
           \<noteq> n_watched_eps (subs s p)"
  shows "fst (set_ep_collection env (EpisodeCollection a) s) = Inr True"
proof (cases "''watched_up_to'' \<in> set (VALID_EP_C_STATUS env)
                \<and> sub_collection (eps s a) \<noteq> None")
  case True
  then obtain q where q: "sub_collection (eps s a) = Some q" by auto
  have "set_ep_collection env (EpisodeCollection a) s
            = set_watched_eps_in_sub' env
                (colls_up_to (\<lambda>ep_c. ep_coll_eq env s ep_c a) (ep_collections (subs s q))) s"
    using True q assms(1)
    by (simp add: set_ep_collection_def get_ep_colls_up_to_this_def and_then_def ok_def)
  then show ?thesis
    using batch_count [of env s _ p] assms(2) by simp
next
  case False
  then have "snd (set_ep_collection env (EpisodeCollection a) s) = s"
    using assms(1) by (auto simp add: set_ep_collection_def raise_def)
  then show ?thesis using assms(2) by simp
qed


text \<open>
  C4, as the code has it. No method of the session changes a watched count by itself:
  after any of them the \<open>n_watched_eps\<close> of every subject collection \<open>p\<close> is what it was
  or a number parsed from a response received during that call. On the batch path
  (\<^verbatim>\<open>_set_watched_eps_in_sub\<close>, and \<^verbatim>\<open>set_ep_collection\<close> with the directive
  \<open>watched_up_to\<close>) the count changes only when the call returns \<open>True\<close>. For the
  single-episode path no such condition holds: the count is taken from the response
  to the status request before that response is checked.
\<close>

theorem count_only_from_server:
  "(ep_c_status (eps s e) = Some ''watched_up_to''
      \<and> n_watched_eps (subs (snd (set_ep_collection env (EpisodeCollection e) s)) p)
           \<noteq> n_watched_eps (subs s p)
     \<longrightarrow> fst (set_ep_collection env (EpisodeCollection e) s) = Inr True)
   \<and> (n_watched_eps (subs (snd (set_watched_eps_in_sub' env cs s)) p) \<noteq> n_watched_eps (subs s p)
     \<longrightarrow> fst (set_watched_eps_in_sub' env cs s) = Inr True)
   \<and> count_from_server env s (snd (set_ep_collection env c s)) p
   \<and> count_from_server env s (snd (set_watched_eps_in_sub' env cs s)) p
   \<and> count_from_server env s (snd (set_collection env c s)) p
   \<and> count_from_server env s (snd (set_sub_collection env c s)) p
   \<and> count_from_server env s (snd (remove_collection env c s)) p
   \<and> count_from_server env s (snd (set_n_watched_eps env a s)) p
   \<and> count_from_server env s (snd (logout env s)) p
   \<and> count_from_server env s
        (snd (get_dummy_collections env from_soup sub_type c_status uid s)) p
   \<and> count_from_server env s (snd (get_subject env f1 i s)) p
   \<and> count_from_server env s (snd (get_episode env f2 i s)) p
   \<and> count_from_server env s (snd (get_episodes_for_sub env f3 i s)) p
   \<and> count_from_server env s (snd (get_sub_collection env f4 i s)) p
   \<and> count_from_server env s (snd (get_sub_collection_with_subject env f5 id5 x5 s)) p
   \<and> count_from_server env s (snd (get_ep_collection env f6 i s)) p
   \<and> count_from_server env s (snd (get_ep_collection_with_episode env f7 id7 x7 s)) p"
proof -
  have coll: "count_from_server env s (snd (set_collection env c s)) p"
    using set_ep_count [of env s c p] set_sub_count [of env c s p]
    by (cases c) (simp_all add: set_collection_def raise_def count_from_server_def)
  have batch: "n_watched_eps (subs (snd (set_watched_eps_in_sub' env cs s)) p)
                 \<noteq> n_watched_eps (subs s p)
     \<longrightarrow> fst (set_watched_eps_in_sub' env cs s) = Inr True"
    "count_from_server env s (snd (set_watched_eps_in_sub' env cs s)) p"
    using batch_count [of env s cs p] by simp_all
  have directive: "ep_c_status (eps s e) = Some ''watched_up_to''
      \<and> n_watched_eps (subs (snd (set_ep_collection env (EpisodeCollection e) s)) p)
           \<noteq> n_watched_eps (subs s p)
     \<longrightarrow> fst (set_ep_collection env (EpisodeCollection e) s) = Inr True"
    using set_ep_batch_true [of s e env p] by blast
  show ?thesis
    by (intro conjI directive batch coll set_ep_count same_count set_sub_count remove_count
        set_n_count logout_count)
      (simp_all add: dummy_subs get_subject_subs get_episode_subs get_episodes_subs
        get_sub_collection_subs get_sub_collection_with_subs get_ep_collection_subs
        get_ep_collection_with_subs)
qed

text \<open>
  On the concrete session: submitting the third episode with its directive changes the
  count of the subject from 1 to the 7 that the re-fetched page shows, and returns
  \<open>True\<close>.
\<close>

theorem count_only_from_server_witness:
  "ep_c_status (eps demo_state 2) = Some ''watched_up_to''
   \<and> n_watched_eps (subs demo_state 0) = Some 1
   \<and> n_watched_eps
        (subs (snd (set_ep_collection (demo_env acking) (EpisodeCollection 2) demo_state)) 0)
       = Some 7
   \<and> fst (set_ep_collection (demo_env acking) (EpisodeCollection 2) demo_state) = Inr True
   \<and> count_from_server (demo_env acking) demo_state
        (snd (set_ep_collection (demo_env acking) (EpisodeCollection 2) demo_state)) 0"
proof -
  have a: "ep_c_status (eps demo_state 2) = Some ''watched_up_to''"
    by (simp add: demo_state_def demo_eps_def)
  have b: "n_watched_eps (subs demo_state 0) = Some 1"
    by (simp add: demo_state_def demo_subs_def)
  have c: "n_watched_eps
        (subs (snd (set_ep_collection (demo_env acking) (EpisodeCollection 2) demo_state)) 0)
       = Some 7"
    by (simp add: set_ep_collection_def get_ep_colls_up_to_this_def set_watched_eps_in_sub'_def
      get_html_for_subject_main'_def recoded_def set_n_watched_def set_ep_c_status_def
      action_defs Let_def demo_state_def demo_env_def demo_subs_def demo_eps_def acking_def
      demo_number_def ack_def)
  have d: "ep_c_status (eps demo_state 2) = Some ''watched_up_to''
      \<and> n_watched_eps
          (subs (snd (set_ep_collection (demo_env acking) (EpisodeCollection 2) demo_state)) 0)
           \<noteq> n_watched_eps (subs demo_state 0)"
    using a b c by simp
  note r = count_only_from_server [of demo_state 2 "demo_env acking" 0 _ "EpisodeCollection 2"]
  from a b c r [THEN conjunct1, THEN mp, OF d]
    r [THEN conjunct2, THEN conjunct2, THEN conjunct1]
  show ?thesis by simp
qed

text \<open>
  C4 as the claim words it fails on the single-episode path: against the service that
  answers with status 500, the submission of the first episode (status \<open>queue\<close>) returns
  \<open>False\<close>, and the count of its subject collection has changed from 1 to 7.
\<close>

theorem failed_write_changes_count_counterexample:
  "ep_c_status (eps demo_state 0) = Some ''queue''
   \<and> sub_collection (eps demo_state 0) = Some 0
   \<and> n_watched_eps (subs demo_state 0) = Some 1
   \<and> fst (set_ep_collection (demo_env failing) (EpisodeCollection 0) demo_state) = Inr False
   \<and> n_watched_eps
        (subs (snd (set_ep_collection (demo_env failing) (EpisodeCollection 0) demo_state)) 0)
       = Some 7"
  by (simp add: set_ep_collection_def check_response_def set_n_watched_def
      action_defs Let_def demo_state_def demo_env_def demo_subs_def demo_eps_def failing_def
      demo_number_def)

end
